theory Spec2Isabelle
  imports Complex_Main
begin

section \<open>Data model (types.ts)\<close>

text \<open>
  Prices and volumes are JavaScript numbers, modelled as reals. The detectors and the two
  engines are given first in exact arithmetic. The extended engine is then given again
  with every arithmetic operation rounded, and the trade plan, the one part of the
  result that is made of computed prices, is settled on that one. The one
  operation whose JavaScript result may not be a number, the division by the entry
  price, is modelled with the values it produces there (see \<open>jsnum\<close> below). Indices, lengths and the two
  integer settings of the configuration are natural numbers: the host sets
  \<^verbatim>\<open>swingLength\<close> and \<^verbatim>\<open>minConfluence\<close> from \<^verbatim>\<open>parseInt\<close> of range
  sliders (2 to 10 and 1 to 3), and the engine uses the first as a loop bound and an
  index offset. Negative and fractional settings are outside this model. The fields
  \<^verbatim>\<open>open\<close>, \<^verbatim>\<open>type\<close>, \<^verbatim>\<open>top\<close> and \<^verbatim>\<open>structure\<close> carry a suffix: the
  plain names are taken by Isabelle.
\<close>

record Candle =
  time :: int
  open_c :: real
  high :: real
  low :: real
  close :: real
  volume :: real

datatype Direction = Bullish | Bearish

text \<open>
  \<^verbatim>\<open>OrderBlock\<close> and \<^verbatim>\<open>FVG\<close> are two interfaces with the same fields; TypeScript
  types are structural, so they are one type.
\<close>

record Zone =
  type_z :: Direction
  top_z :: real
  bottom :: real
  index :: nat
  startTime :: int
  isValid :: bool

type_synonym OrderBlock = Zone
type_synonym FVG = Zone

datatype StructureType = BOS | ChoCh

record MarketStructure =
  type_s :: StructureType
  direction :: Direction
  price :: real
  index_s :: nat
  time_s :: int

record ConfluenceDetails =
  ob :: bool
  fvg :: bool
  bos :: bool
  sweep :: bool

record Confluences =
  bullish :: ConfluenceDetails
  bearish :: ConfluenceDetails

datatype Signal = BUY | SELL | NEUTRAL

text \<open>
  A JavaScript number that may come out of a division: a finite value, an infinity or
  NaN.
\<close>

datatype jsnum = Num real | PosInfinity | NegInfinity | NaN

record Config =
  swingLength :: nat
  obLookback :: nat
  minConfluence :: nat
  rrRatio :: real
  slBuffer :: real

text \<open>The result of the extended engine (services/technicalAnalysis.ts).\<close>

record AnalysisResult =
  bullScore :: nat
  bearScore :: nat
  confluences :: Confluences
  orderBlocks :: "OrderBlock list"
  fvgs :: "FVG list"
  structure_r :: "MarketStructure list"
  signal :: Signal
  entryPrice :: "real option"
  slPrice :: "real option"
  tpPrice :: "real option"
  rrRatio_r :: "real option"
  pnlEstimate :: "jsnum option"

text \<open>The result of the base engine (the second, three-factor copy of the service).\<close>

record AnalysisResultBase =
  bullScore_b :: nat
  bearScore_b :: nat
  orderBlocks_b :: "OrderBlock list"
  fvgs_b :: "FVG list"
  structure_b :: "MarketStructure list"
  signal_b :: Signal

text \<open>The elements of the array \<^verbatim>\<open>p\<close> that \<^verbatim>\<open>findPivots\<close> builds.\<close>

record Pivot =
  val :: real
  idx :: nat
  time_p :: int

datatype PivotType = High | Low

text \<open>Reading a property of \<^verbatim>\<open>undefined\<close> throws a TypeError.\<close>

datatype error = TypeError

section \<open>1. Fair value gaps\<close>

text \<open>
  The two tests of the loop body, on \<^verbatim>\<open>c2 = candles[i - 2]\<close>,
  \<^verbatim>\<open>c1 = candles[i - 1]\<close> and \<^verbatim>\<open>c0 = candles[i]\<close>.
\<close>

definition bullishFVG :: "Candle \<Rightarrow> Candle \<Rightarrow> Candle \<Rightarrow> bool" where
  "bullishFVG c2 c1 c0 \<longleftrightarrow>
     high c2 < low c0 \<and> close c1 > open_c c1 \<and>
     low c0 - high c2 > (high c1 - low c1) * 0.3"

definition bearishFVG :: "Candle \<Rightarrow> Candle \<Rightarrow> Candle \<Rightarrow> bool" where
  "bearishFVG c2 c1 c0 \<longleftrightarrow>
     low c2 > high c0 \<and> close c1 < open_c c1 \<and>
     low c2 - high c0 > (high c1 - low c1) * 0.3"

text \<open>
  One pass of the loop \<^verbatim>\<open>for (let i = 2; i < candles.length; i++)\<close>: the array
  \<^verbatim>\<open>fvgs\<close> after the body has run at \<open>i\<close>. The three reads are in range, since
  \<open>2 \<le> i < length candles\<close>.
\<close>

definition fvgStep :: "Candle list \<Rightarrow> nat \<Rightarrow> FVG list \<Rightarrow> FVG list" where
  "fvgStep candles i acc =
    (let c0 = candles ! i; c1 = candles ! (i - 1); c2 = candles ! (i - 2);
         acc1 = (if bullishFVG c2 c1 c0
                 then acc @ [\<lparr>type_z = Bullish, top_z = low c0, bottom = high c2,
                              index = i - 1, startTime = time c1, isValid = True\<rparr>]
                 else acc)
     in if bearishFVG c2 c1 c0
        then acc1 @ [\<lparr>type_z = Bearish, top_z = low c2, bottom = high c0,
                       index = i - 1, startTime = time c1, isValid = True\<rparr>]
        else acc1)"

definition detectFVGs :: "Candle list \<Rightarrow> FVG list" where
  "detectFVGs candles = fold (fvgStep candles) [2 ..< length candles] []"

section \<open>2. Order blocks\<close>

definition bullishOB :: "Candle \<Rightarrow> Candle \<Rightarrow> bool" where
  "bullishOB c1 c0 \<longleftrightarrow>
     close c0 > open_c c0 \<and> close c1 < open_c c1 \<and>
     \<bar>close c0 - open_c c0\<bar> > (high c1 - low c1) * 1.2"

definition bearishOB :: "Candle \<Rightarrow> Candle \<Rightarrow> bool" where
  "bearishOB c1 c0 \<longleftrightarrow>
     close c0 < open_c c0 \<and> close c1 > open_c c1 \<and>
     \<bar>close c0 - open_c c0\<bar> > (high c1 - low c1) * 1.2"

text \<open>One pass of the loop \<^verbatim>\<open>for (let i = 1; i < candles.length; i++)\<close>.\<close>

definition obStep :: "Candle list \<Rightarrow> nat \<Rightarrow> OrderBlock list \<Rightarrow> OrderBlock list" where
  "obStep candles i acc =
    (let c0 = candles ! i; c1 = candles ! (i - 1);
         acc1 = (if bullishOB c1 c0
                 then acc @ [\<lparr>type_z = Bullish, top_z = high c1, bottom = low c1,
                              index = i - 1, startTime = time c1, isValid = True\<rparr>]
                 else acc)
     in if bearishOB c1 c0
        then acc1 @ [\<lparr>type_z = Bearish, top_z = high c1, bottom = low c1,
                       index = i - 1, startTime = time c1, isValid = True\<rparr>]
        else acc1)"

definition detectOBs :: "Candle list \<Rightarrow> OrderBlock list" where
  "detectOBs candles = fold (obStep candles) [1 ..< length candles] []"

section \<open>3. Pivots\<close>

text \<open>
  The inner loop \<^verbatim>\<open>for (let j = 1; j <= len; j++)\<close> starts from
  \<^verbatim>\<open>isPivot = true\<close> and clears the flag at every \<open>j\<close> whose test holds. It runs
  only for \<open>len \<le> i\<close> and \<open>i + len < length candles\<close>, so \<open>i - j\<close> and \<open>i + j\<close>
  are in range.
\<close>

definition pivotStep :: "PivotType \<Rightarrow> Candle list \<Rightarrow> nat \<Rightarrow> nat \<Rightarrow> bool \<Rightarrow> bool" where
  "pivotStep ty candles i j isPivot =
    (case ty of
       High \<Rightarrow>
         (if high (candles ! i) \<le> high (candles ! (i - j)) \<or>
             high (candles ! i) \<le> high (candles ! (i + j))
          then False else isPivot)
     | Low \<Rightarrow>
         (if low (candles ! i) \<ge> low (candles ! (i - j)) \<or>
             low (candles ! i) \<ge> low (candles ! (i + j))
          then False else isPivot))"

definition isPivotAt :: "PivotType \<Rightarrow> Candle list \<Rightarrow> nat \<Rightarrow> nat \<Rightarrow> bool" where
  "isPivotAt ty candles len i = fold (pivotStep ty candles i) [1 ..< Suc len] True"

definition mkPivot :: "PivotType \<Rightarrow> Candle list \<Rightarrow> nat \<Rightarrow> Pivot" where
  "mkPivot ty candles i =
     \<lparr>val = (case ty of High \<Rightarrow> high (candles ! i) | Low \<Rightarrow> low (candles ! i)),
      idx = i, time_p = time (candles ! i)\<rparr>"

text \<open>
  The outer loop \<^verbatim>\<open>for (let i = len; i < candles.length - len; i++)\<close>. In
  JavaScript \<^verbatim>\<open>candles.length - len\<close> may be negative, and then the loop does not
  run; the truncated difference of naturals is 0 there and the range is empty as well.
\<close>

definition findPivots :: "Candle list \<Rightarrow> Config \<Rightarrow> PivotType \<Rightarrow> Pivot list" where
  "findPivots candles config ty =
    (let len = swingLength config
     in fold (\<lambda>i p. if isPivotAt ty candles len i then p @ [mkPivot ty candles i] else p)
          [len ..< length candles - len] [])"

section \<open>Structure and liquidity sweeps\<close>

text \<open>
  \<^verbatim>\<open>candles[candles.length - 1]\<close> is \<^verbatim>\<open>undefined\<close> on the empty array. Every
  later read of a property of \<^verbatim>\<open>lastCandle\<close> is a branch of the model: it throws
  when the value is \<^verbatim>\<open>undefined\<close>.
\<close>

definition lastOf :: "Candle list \<Rightarrow> Candle option" where
  "lastOf candles = (if candles = [] then None else Some (last candles))"

definition bullSweepOf :: "Candle option \<Rightarrow> Pivot list \<Rightarrow> error + bool" where
  "bullSweepOf lastCandle lowPivots =
    (if length lowPivots > 0
     then (let lastLow = val (lowPivots ! (length lowPivots - 1))
           in case lastCandle of
                None \<Rightarrow> Inl TypeError
              | Some lc \<Rightarrow> Inr (low lc < lastLow \<and> close lc > lastLow))
     else Inr False)"

definition bearSweepOf :: "Candle option \<Rightarrow> Pivot list \<Rightarrow> error + bool" where
  "bearSweepOf lastCandle highPivots =
    (if length highPivots > 0
     then (let lastHigh = val (highPivots ! (length highPivots - 1))
           in case lastCandle of
                None \<Rightarrow> Inl TypeError
              | Some lc \<Rightarrow> Inr (high lc > lastHigh \<and> close lc < lastHigh))
     else Inr False)"

text \<open>The array \<^verbatim>\<open>structure\<close> after the two blocks of the break-of-structure logic.\<close>

definition bosLogic :: "Pivot list \<Rightarrow> Pivot list \<Rightarrow> MarketStructure list" where
  "bosLogic highPivots lowPivots =
    (let s1 = (if length highPivots \<ge> 2
               then (let lastP = highPivots ! (length highPivots - 1);
                         prev = highPivots ! (length highPivots - 2)
                     in if val lastP > val prev
                        then [\<lparr>type_s = BOS, direction = Bullish, price = val lastP,
                                index_s = idx lastP, time_s = time_p lastP\<rparr>]
                        else [])
               else [])
     in if length lowPivots \<ge> 2
        then (let lastP = lowPivots ! (length lowPivots - 1);
                  prev = lowPivots ! (length lowPivots - 2)
              in if val lastP < val prev
                 then s1 @ [\<lparr>type_s = BOS, direction = Bearish, price = val lastP,
                              index_s = idx lastP, time_s = time_p lastP\<rparr>]
                 else s1)
        else s1)"

section \<open>4. Confluence scoring\<close>

text \<open>
  \<^verbatim>\<open>Array.prototype.find\<close> and \<^verbatim>\<open>some\<close> call the predicate on the elements in
  order and stop at the first one it accepts; a predicate that throws ends the call.
\<close>

fun find_js :: "('a \<Rightarrow> error + bool) \<Rightarrow> 'a list \<Rightarrow> error + 'a option" where
  "find_js p [] = Inr None"
| "find_js p (x # xs) =
     (case p x of
        Inl e \<Rightarrow> Inl e
      | Inr b \<Rightarrow> if b then Inr (Some x) else find_js p xs)"

fun some_js :: "('a \<Rightarrow> error + bool) \<Rightarrow> 'a list \<Rightarrow> error + bool" where
  "some_js p [] = Inr False"
| "some_js p (x # xs) =
     (case p x of
        Inl e \<Rightarrow> Inl e
      | Inr b \<Rightarrow> if b then Inr True else some_js p xs)"

text \<open>
  The two predicates passed to \<^verbatim>\<open>find\<close> and \<^verbatim>\<open>some\<close>. \<^verbatim>\<open>&&\<close> evaluates
  its right operand, which reads \<^verbatim>\<open>lastCandle\<close>, only when the type test holds.
\<close>

definition inBullZone :: "Candle option \<Rightarrow> Zone \<Rightarrow> error + bool" where
  "inBullZone lastCandle z =
    (if type_z z = Bullish
     then (case lastCandle of
             None \<Rightarrow> Inl TypeError
           | Some lc \<Rightarrow> Inr (low lc \<le> top_z z \<and> close lc \<ge> bottom z))
     else Inr False)"

definition inBearZone :: "Candle option \<Rightarrow> Zone \<Rightarrow> error + bool" where
  "inBearZone lastCandle z =
    (if type_z z = Bearish
     then (case lastCandle of
             None \<Rightarrow> Inl TypeError
           | Some lc \<Rightarrow> Inr (high lc \<ge> bottom z \<and> close lc \<le> top_z z))
     else Inr False)"

text \<open>\<^verbatim>\<open>Object.values(c).filter(Boolean).length\<close>.\<close>

definition countTrue :: "ConfluenceDetails \<Rightarrow> nat" where
  "countTrue c = length (filter (\<lambda>b. b) [ob c, fvg c, bos c, sweep c])"

text \<open>
  Division and multiplication of JavaScript numbers, where the divisor may be zero: a
  positive number over zero is \<^verbatim>\<open>Infinity\<close>, a negative one \<^verbatim>\<open>-Infinity\<close>, and
  zero over zero is \<^verbatim>\<open>NaN\<close>.
\<close>

definition js_div :: "real \<Rightarrow> real \<Rightarrow> jsnum" where
  "js_div a b =
    (if b \<noteq> 0 then Num (a / b)
     else if a > 0 then PosInfinity
     else if a < 0 then NegInfinity
     else NaN)"

fun js_times :: "jsnum \<Rightarrow> real \<Rightarrow> jsnum" where
  "js_times (Num a) k = Num (a * k)"
| "js_times PosInfinity k = (if k > 0 then PosInfinity else if k < 0 then NegInfinity else NaN)"
| "js_times NegInfinity k = (if k > 0 then NegInfinity else if k < 0 then PosInfinity else NaN)"
| "js_times NaN k = NaN"

section \<open>The extended engine (services/technicalAnalysis.ts)\<close>

definition analyzePriceData :: "Candle list \<Rightarrow> Config \<Rightarrow> error + AnalysisResult" where
  "analyzePriceData candles config =
    (let fvgs' = detectFVGs candles;
         orderBlocks' = detectOBs candles;
         highPivots = findPivots candles config High;
         lowPivots = findPivots candles config Low;
         lastCandle = lastOf candles
     in
     case bullSweepOf lastCandle lowPivots of Inl e \<Rightarrow> Inl e | Inr bullSweep \<Rightarrow>
     case bearSweepOf lastCandle highPivots of Inl e \<Rightarrow> Inl e | Inr bearSweep \<Rightarrow>
     let structure' = bosLogic highPivots lowPivots in
     case find_js (inBullZone lastCandle) orderBlocks' of Inl e \<Rightarrow> Inl e | Inr currentBullOB \<Rightarrow>
     case find_js (inBearZone lastCandle) orderBlocks' of Inl e \<Rightarrow> Inl e | Inr currentBearOB \<Rightarrow>
     let inBullOB = (currentBullOB \<noteq> None);
         inBearOB = (currentBearOB \<noteq> None)
     in
     case some_js (inBullZone lastCandle) fvgs' of Inl e \<Rightarrow> Inl e | Inr inBullFVG \<Rightarrow>
     case some_js (inBearZone lastCandle) fvgs' of Inl e \<Rightarrow> Inl e | Inr inBearFVG \<Rightarrow>
     let bullBOS = list_ex (\<lambda>s. direction s = Bullish) structure';
         bearBOS = list_ex (\<lambda>s. direction s = Bearish) structure';
         confluences' =
           \<lparr>bullish = \<lparr>ob = inBullOB, fvg = inBullFVG, bos = bullBOS, sweep = bullSweep\<rparr>,
            bearish = \<lparr>ob = inBearOB, fvg = inBearFVG, bos = bearBOS, sweep = bearSweep\<rparr>\<rparr>;
         bullScore' = countTrue (bullish confluences');
         bearScore' = countTrue (bearish confluences')
     in
     if bullScore' \<ge> minConfluence config then
       (case lastCandle of
          None \<Rightarrow> Inl TypeError
        | Some lc \<Rightarrow>
            let entryPrice' = close lc;
                baseSL = (case currentBullOB of Some b \<Rightarrow> bottom b | None \<Rightarrow> low lc);
                slPrice' = baseSL * (1 - slBuffer config / 100);
                risk = \<bar>entryPrice' - slPrice'\<bar>;
                tpPrice' = entryPrice' + risk * rrRatio config
            in Inr \<lparr>bullScore = bullScore', bearScore = bearScore',
                     confluences = confluences', orderBlocks = orderBlocks', fvgs = fvgs',
                     structure_r = structure', signal = BUY,
                     entryPrice = Some entryPrice', slPrice = Some slPrice',
                     tpPrice = Some tpPrice', rrRatio_r = Some (rrRatio config),
                     pnlEstimate =
                       Some (js_times (js_div (tpPrice' - entryPrice') entryPrice') 100)\<rparr>)
     else if bearScore' \<ge> minConfluence config then
       (case lastCandle of
          None \<Rightarrow> Inl TypeError
        | Some lc \<Rightarrow>
            let entryPrice' = close lc;
                baseSL = (case currentBearOB of Some b \<Rightarrow> top_z b | None \<Rightarrow> high lc);
                slPrice' = baseSL * (1 + slBuffer config / 100);
                risk = \<bar>slPrice' - entryPrice'\<bar>;
                tpPrice' = entryPrice' - risk * rrRatio config
            in Inr \<lparr>bullScore = bullScore', bearScore = bearScore',
                     confluences = confluences', orderBlocks = orderBlocks', fvgs = fvgs',
                     structure_r = structure', signal = SELL,
                     entryPrice = Some entryPrice', slPrice = Some slPrice',
                     tpPrice = Some tpPrice', rrRatio_r = Some (rrRatio config),
                     pnlEstimate =
                       Some (js_times (js_div (entryPrice' - tpPrice') entryPrice') 100)\<rparr>)
     else
       Inr \<lparr>bullScore = bullScore', bearScore = bearScore',
            confluences = confluences', orderBlocks = orderBlocks', fvgs = fvgs',
            structure_r = structure', signal = NEUTRAL,
            entryPrice = None, slPrice = None, tpPrice = None, rrRatio_r = None,
            pnlEstimate = None\<rparr>)"

section \<open>The base engine (the three-factor copy)\<close>

definition analyzePriceData_base :: "Candle list \<Rightarrow> Config \<Rightarrow> error + AnalysisResultBase" where
  "analyzePriceData_base candles config =
    (let fvgs' = detectFVGs candles;
         orderBlocks' = detectOBs candles;
         highPivots = findPivots candles config High;
         lowPivots = findPivots candles config Low;
         structure' = bosLogic highPivots lowPivots;
         lastCandle = lastOf candles
     in
     case some_js (inBullZone lastCandle) orderBlocks' of Inl e \<Rightarrow> Inl e | Inr inBullOB \<Rightarrow>
     case some_js (inBearZone lastCandle) orderBlocks' of Inl e \<Rightarrow> Inl e | Inr inBearOB \<Rightarrow>
     case some_js (inBullZone lastCandle) fvgs' of Inl e \<Rightarrow> Inl e | Inr inBullFVG \<Rightarrow>
     case some_js (inBearZone lastCandle) fvgs' of Inl e \<Rightarrow> Inl e | Inr inBearFVG \<Rightarrow>
     let bullBOS = list_ex (\<lambda>s. direction s = Bullish) structure';
         bearBOS = list_ex (\<lambda>s. direction s = Bearish) structure';
         bullScore' = (if inBullOB then 1 else 0) + (if inBullFVG then 1 else 0)
                      + (if bullBOS then 1 else (0::nat));
         bearScore' = (if inBearOB then 1 else 0) + (if inBearFVG then 1 else 0)
                      + (if bearBOS then 1 else (0::nat))
     in Inr \<lparr>bullScore_b = bullScore', bearScore_b = bearScore',
              orderBlocks_b = orderBlocks', fvgs_b = fvgs', structure_b = structure',
              signal_b = (if bullScore' \<ge> minConfluence config then BUY
                          else if bearScore' \<ge> minConfluence config then SELL
                          else NEUTRAL)\<rparr>)"

section \<open>The extended engine in rounded arithmetic\<close>

text \<open>
  JavaScript numbers are IEEE doubles: each \<^verbatim>\<open>+\<close>, \<^verbatim>\<open>-\<close>, \<^verbatim>\<open>*\<close> and \<^verbatim>\<open>/\<close>
  returns the exact result rounded to a double, and a decimal literal such as
  \<^verbatim>\<open>0.3\<close> is the double nearest to it. Comparisons and \<^verbatim>\<open>Math.abs\<close> are exact.
  The definitions of this section are the detectors and the extended engine again, with
  the rounding \<open>rnd\<close> as a parameter, applied to the result of every arithmetic
  operation and to the two literals that are not doubles. What is assumed of \<open>rnd\<close> is
  what rounding to nearest gives: it is monotone and leaves 0 and 1 as they are. The
  doubles are the values \<open>rnd\<close> leaves as they are. Overflow to an infinity is not
  modelled. At the identity the definitions are those of the sections above.
\<close>

definition rounding :: "(real \<Rightarrow> real) \<Rightarrow> bool" where
  "rounding rnd \<longleftrightarrow> (\<forall>x y. x \<le> y \<longrightarrow> rnd x \<le> rnd y) \<and> rnd 0 = 0 \<and> rnd 1 = 1"

definition bullishFVG_fl :: "(real \<Rightarrow> real) \<Rightarrow> Candle \<Rightarrow> Candle \<Rightarrow> Candle \<Rightarrow> bool" where
  "bullishFVG_fl rnd c2 c1 c0 \<longleftrightarrow>
     high c2 < low c0 \<and> close c1 > open_c c1 \<and>
     rnd (low c0 - high c2) > rnd (rnd (high c1 - low c1) * rnd 0.3)"

definition bearishFVG_fl :: "(real \<Rightarrow> real) \<Rightarrow> Candle \<Rightarrow> Candle \<Rightarrow> Candle \<Rightarrow> bool" where
  "bearishFVG_fl rnd c2 c1 c0 \<longleftrightarrow>
     low c2 > high c0 \<and> close c1 < open_c c1 \<and>
     rnd (low c2 - high c0) > rnd (rnd (high c1 - low c1) * rnd 0.3)"

definition fvgStep_fl :: "(real \<Rightarrow> real) \<Rightarrow> Candle list \<Rightarrow> nat \<Rightarrow> FVG list \<Rightarrow> FVG list" where
  "fvgStep_fl rnd candles i acc =
    (let c0 = candles ! i; c1 = candles ! (i - 1); c2 = candles ! (i - 2);
         acc1 = (if bullishFVG_fl rnd c2 c1 c0
                 then acc @ [\<lparr>type_z = Bullish, top_z = low c0, bottom = high c2,
                              index = i - 1, startTime = time c1, isValid = True\<rparr>]
                 else acc)
     in if bearishFVG_fl rnd c2 c1 c0
        then acc1 @ [\<lparr>type_z = Bearish, top_z = low c2, bottom = high c0,
                       index = i - 1, startTime = time c1, isValid = True\<rparr>]
        else acc1)"

definition detectFVGs_fl :: "(real \<Rightarrow> real) \<Rightarrow> Candle list \<Rightarrow> FVG list" where
  "detectFVGs_fl rnd candles = fold (fvgStep_fl rnd candles) [2 ..< length candles] []"

definition bullishOB_fl :: "(real \<Rightarrow> real) \<Rightarrow> Candle \<Rightarrow> Candle \<Rightarrow> bool" where
  "bullishOB_fl rnd c1 c0 \<longleftrightarrow>
     close c0 > open_c c0 \<and> close c1 < open_c c1 \<and>
     \<bar>rnd (close c0 - open_c c0)\<bar> > rnd (rnd (high c1 - low c1) * rnd 1.2)"

definition bearishOB_fl :: "(real \<Rightarrow> real) \<Rightarrow> Candle \<Rightarrow> Candle \<Rightarrow> bool" where
  "bearishOB_fl rnd c1 c0 \<longleftrightarrow>
     close c0 < open_c c0 \<and> close c1 > open_c c1 \<and>
     \<bar>rnd (close c0 - open_c c0)\<bar> > rnd (rnd (high c1 - low c1) * rnd 1.2)"

definition obStep_fl ::
  "(real \<Rightarrow> real) \<Rightarrow> Candle list \<Rightarrow> nat \<Rightarrow> OrderBlock list \<Rightarrow> OrderBlock list" where
  "obStep_fl rnd candles i acc =
    (let c0 = candles ! i; c1 = candles ! (i - 1);
         acc1 = (if bullishOB_fl rnd c1 c0
                 then acc @ [\<lparr>type_z = Bullish, top_z = high c1, bottom = low c1,
                              index = i - 1, startTime = time c1, isValid = True\<rparr>]
                 else acc)
     in if bearishOB_fl rnd c1 c0
        then acc1 @ [\<lparr>type_z = Bearish, top_z = high c1, bottom = low c1,
                       index = i - 1, startTime = time c1, isValid = True\<rparr>]
        else acc1)"

definition detectOBs_fl :: "(real \<Rightarrow> real) \<Rightarrow> Candle list \<Rightarrow> OrderBlock list" where
  "detectOBs_fl rnd candles = fold (obStep_fl rnd candles) [1 ..< length candles] []"

definition js_div_fl :: "(real \<Rightarrow> real) \<Rightarrow> real \<Rightarrow> real \<Rightarrow> jsnum" where
  "js_div_fl rnd a b =
    (if b \<noteq> 0 then Num (rnd (a / b))
     else if a > 0 then PosInfinity
     else if a < 0 then NegInfinity
     else NaN)"

fun js_times_fl :: "(real \<Rightarrow> real) \<Rightarrow> jsnum \<Rightarrow> real \<Rightarrow> jsnum" where
  "js_times_fl rnd (Num a) k = Num (rnd (a * k))"
| "js_times_fl rnd PosInfinity k =
     (if k > 0 then PosInfinity else if k < 0 then NegInfinity else NaN)"
| "js_times_fl rnd NegInfinity k =
     (if k > 0 then NegInfinity else if k < 0 then PosInfinity else NaN)"
| "js_times_fl rnd NaN k = NaN"

text \<open>The comparison \<^verbatim>\<open>x >= 0\<close>; it is false on \<^verbatim>\<open>NaN\<close>.\<close>

fun js_nonneg :: "jsnum \<Rightarrow> bool" where
  "js_nonneg (Num a) = (a \<ge> 0)"
| "js_nonneg PosInfinity = True"
| "js_nonneg NegInfinity = False"
| "js_nonneg NaN = False"

text \<open>
  The pivots, the sweeps, the break of structure and the scorer only compare and count,
  so they are the definitions above.
\<close>

definition analyzePriceData_fl ::
  "(real \<Rightarrow> real) \<Rightarrow> Candle list \<Rightarrow> Config \<Rightarrow> error + AnalysisResult" where
  "analyzePriceData_fl rnd candles config =
    (let fvgs' = detectFVGs_fl rnd candles;
         orderBlocks' = detectOBs_fl rnd candles;
         highPivots = findPivots candles config High;
         lowPivots = findPivots candles config Low;
         lastCandle = lastOf candles
     in
     case bullSweepOf lastCandle lowPivots of Inl e \<Rightarrow> Inl e | Inr bullSweep \<Rightarrow>
     case bearSweepOf lastCandle highPivots of Inl e \<Rightarrow> Inl e | Inr bearSweep \<Rightarrow>
     let structure' = bosLogic highPivots lowPivots in
     case find_js (inBullZone lastCandle) orderBlocks' of Inl e \<Rightarrow> Inl e | Inr currentBullOB \<Rightarrow>
     case find_js (inBearZone lastCandle) orderBlocks' of Inl e \<Rightarrow> Inl e | Inr currentBearOB \<Rightarrow>
     let inBullOB = (currentBullOB \<noteq> None);
         inBearOB = (currentBearOB \<noteq> None)
     in
     case some_js (inBullZone lastCandle) fvgs' of Inl e \<Rightarrow> Inl e | Inr inBullFVG \<Rightarrow>
     case some_js (inBearZone lastCandle) fvgs' of Inl e \<Rightarrow> Inl e | Inr inBearFVG \<Rightarrow>
     let bullBOS = list_ex (\<lambda>s. direction s = Bullish) structure';
         bearBOS = list_ex (\<lambda>s. direction s = Bearish) structure';
         confluences' =
           \<lparr>bullish = \<lparr>ob = inBullOB, fvg = inBullFVG, bos = bullBOS, sweep = bullSweep\<rparr>,
            bearish = \<lparr>ob = inBearOB, fvg = inBearFVG, bos = bearBOS, sweep = bearSweep\<rparr>\<rparr>;
         bullScore' = countTrue (bullish confluences');
         bearScore' = countTrue (bearish confluences')
     in
     if bullScore' \<ge> minConfluence config then
       (case lastCandle of
          None \<Rightarrow> Inl TypeError
        | Some lc \<Rightarrow>
            let entryPrice' = close lc;
                baseSL = (case currentBullOB of Some b \<Rightarrow> bottom b | None \<Rightarrow> low lc);
                slPrice' = rnd (baseSL * rnd (1 - rnd (slBuffer config / 100)));
                risk = \<bar>rnd (entryPrice' - slPrice')\<bar>;
                tpPrice' = rnd (entryPrice' + rnd (risk * rrRatio config))
            in Inr \<lparr>bullScore = bullScore', bearScore = bearScore',
                     confluences = confluences', orderBlocks = orderBlocks', fvgs = fvgs',
                     structure_r = structure', signal = BUY,
                     entryPrice = Some entryPrice', slPrice = Some slPrice',
                     tpPrice = Some tpPrice', rrRatio_r = Some (rrRatio config),
                     pnlEstimate =
                       Some (js_times_fl rnd
                               (js_div_fl rnd (rnd (tpPrice' - entryPrice')) entryPrice') 100)\<rparr>)
     else if bearScore' \<ge> minConfluence config then
       (case lastCandle of
          None \<Rightarrow> Inl TypeError
        | Some lc \<Rightarrow>
            let entryPrice' = close lc;
                baseSL = (case currentBearOB of Some b \<Rightarrow> top_z b | None \<Rightarrow> high lc);
                slPrice' = rnd (baseSL * rnd (1 + rnd (slBuffer config / 100)));
                risk = \<bar>rnd (slPrice' - entryPrice')\<bar>;
                tpPrice' = rnd (entryPrice' - rnd (risk * rrRatio config))
            in Inr \<lparr>bullScore = bullScore', bearScore = bearScore',
                     confluences = confluences', orderBlocks = orderBlocks', fvgs = fvgs',
                     structure_r = structure', signal = SELL,
                     entryPrice = Some entryPrice', slPrice = Some slPrice',
                     tpPrice = Some tpPrice', rrRatio_r = Some (rrRatio config),
                     pnlEstimate =
                       Some (js_times_fl rnd
                               (js_div_fl rnd (rnd (entryPrice' - tpPrice')) entryPrice') 100)\<rparr>)
     else
       Inr \<lparr>bullScore = bullScore', bearScore = bearScore',
            confluences = confluences', orderBlocks = orderBlocks', fvgs = fvgs',
            structure_r = structure', signal = NEUTRAL,
            entryPrice = None, slPrice = None, tpPrice = None, rrRatio_r = None,
            pnlEstimate = None\<rparr>)"

section \<open>Concrete inputs\<close>

text \<open>Bars and configurations on which the theorems below are evaluated.\<close>

definition candle :: "int \<Rightarrow> real \<Rightarrow> real \<Rightarrow> real \<Rightarrow> real \<Rightarrow> Candle" where
  "candle t o' h l c =
     \<lparr>time = t, open_c = o', high = h, low = l, close = c, volume = 0\<rparr>"

definition config_of :: "nat \<Rightarrow> nat \<Rightarrow> real \<Rightarrow> real \<Rightarrow> Config" where
  "config_of len m rr buf =
     \<lparr>swingLength = len, obLookback = 10, minConfluence = m, rrRatio = rr, slBuffer = buf\<rparr>"

text \<open>
  Five flat-bodied bars whose range widens: with half-window 1 the highs 13 and 14 are
  high pivots and the lows 3 and 2 are low pivots, so both a bullish and a bearish break
  of structure are found. The low \<open>l\<close> and the open and close \<open>c\<close> of the last bar are
  parameters.
\<close>

definition widening :: "real \<Rightarrow> real \<Rightarrow> Candle list" where
  "widening l c =
     [candle 0 8 11 5 8, candle 1 8 13 3 8, candle 2 8 12 4 8, candle 3 8 14 2 8,
      candle 4 c 11 l c]"

text \<open>Falling highs and falling lows: only the bearish break of structure is found.\<close>

definition falling :: "Candle list" where
  "falling =
     [candle 0 8 14 5 8, candle 1 8 12 3 8, candle 2 8 13 4 8, candle 3 8 11 2 8,
      candle 4 8 14 5 8]"

text \<open>
  A down bar, an up bar with a large body, and a bar that opens above the first one:
  a bullish order block at index 0 and a bullish fair value gap at index 1.
\<close>

definition gapUp :: "Candle list" where
  "gapUp =
     [candle 0 10 10.5 9.5 9.8, candle 1 9.8 12.5 9.7 12, candle 2 12 13 11.5 12.8]"

text \<open>Four bars whose highest high, 3, is shared by the bars 1 and 2.\<close>

definition plateau :: "Candle list" where
  "plateau = [candle 0 1 1 1 1, candle 1 3 3 3 3, candle 2 3 3 3 3, candle 3 1 1 1 1]"

text \<open>The signal and the trade plan of a result, or the error.\<close>

definition plan ::
  "error + AnalysisResult \<Rightarrow>
     error + (Signal \<times> real option \<times> real option \<times> real option \<times> jsnum option)" where
  "plan x =
    (case x of
       Inl e \<Rightarrow> Inl e
     | Inr r \<Rightarrow> Inr (signal r, entryPrice r, slPrice r, tpPrice r, pnlEstimate r))"

section \<open>The loops as maps and filters\<close>

lemma fold_push:
  "fold (\<lambda>i p. if P i then p @ [f i] else p) xs acc = acc @ map f (filter P xs)"
  by (induction xs arbitrary: acc) auto

lemma findPivots_eq:
  "findPivots candles config ty =
     map (mkPivot ty candles)
       (filter (isPivotAt ty candles (swingLength config))
          [swingLength config ..< length candles - swingLength config])"
  by (simp add: findPivots_def Let_def fold_push)

lemma fvgStep_append: "fvgStep candles i acc = acc @ fvgStep candles i []"
  by (simp add: fvgStep_def Let_def)

lemma fold_fvgStep:
  "fold (fvgStep candles) xs acc = acc @ concat (map (\<lambda>i. fvgStep candles i []) xs)"
proof (induction xs arbitrary: acc)
  case Nil
  then show ?case by simp
next
  case (Cons x xs)
  have "fold (fvgStep candles) (x # xs) acc = fold (fvgStep candles) xs (fvgStep candles x acc)"
    by simp
  also have "\<dots> = fvgStep candles x acc @ concat (map (\<lambda>i. fvgStep candles i []) xs)"
    by (rule Cons.IH)
  also have "fvgStep candles x acc = acc @ fvgStep candles x []"
    by (rule fvgStep_append)
  finally show ?case by simp
qed

lemma obStep_append: "obStep candles i acc = acc @ obStep candles i []"
  by (simp add: obStep_def Let_def)

lemma fold_obStep:
  "fold (obStep candles) xs acc = acc @ concat (map (\<lambda>i. obStep candles i []) xs)"
proof (induction xs arbitrary: acc)
  case Nil
  then show ?case by simp
next
  case (Cons x xs)
  have "fold (obStep candles) (x # xs) acc = fold (obStep candles) xs (obStep candles x acc)"
    by simp
  also have "\<dots> = obStep candles x acc @ concat (map (\<lambda>i. obStep candles i []) xs)"
    by (rule Cons.IH)
  also have "obStep candles x acc = acc @ obStep candles x []"
    by (rule obStep_append)
  finally show ?case by simp
qed

lemma detectFVGs_eq:
  "detectFVGs candles = concat (map (\<lambda>i. fvgStep candles i []) [2 ..< length candles])"
  by (simp add: detectFVGs_def fold_fvgStep)

lemma detectOBs_eq:
  "detectOBs candles = concat (map (\<lambda>i. obStep candles i []) [1 ..< length candles])"
  by (simp add: detectOBs_def fold_obStep)

lemma fold_pivotStep_High:
  "fold (pivotStep High candles i) js b \<longleftrightarrow>
     b \<and> (\<forall>j \<in> set js. high (candles ! i) > high (candles ! (i - j)) \<and>
                        high (candles ! i) > high (candles ! (i + j)))"
  by (induction js arbitrary: b) (auto simp: pivotStep_def)

lemma fold_pivotStep_Low:
  "fold (pivotStep Low candles i) js b \<longleftrightarrow>
     b \<and> (\<forall>j \<in> set js. low (candles ! i) < low (candles ! (i - j)) \<and>
                        low (candles ! i) < low (candles ! (i + j)))"
  by (induction js arbitrary: b) (auto simp: pivotStep_def)

lemma isPivotAt_High:
  "isPivotAt High candles len i \<longleftrightarrow>
     (\<forall>j. 1 \<le> j \<and> j \<le> len \<longrightarrow>
        high (candles ! i) > high (candles ! (i - j)) \<and>
        high (candles ! i) > high (candles ! (i + j)))"
  by (auto simp: isPivotAt_def fold_pivotStep_High)

lemma isPivotAt_Low:
  "isPivotAt Low candles len i \<longleftrightarrow>
     (\<forall>j. 1 \<le> j \<and> j \<le> len \<longrightarrow>
        low (candles ! i) < low (candles ! (i - j)) \<and>
        low (candles ! i) < low (candles ! (i + j)))"
  by (auto simp: isPivotAt_def fold_pivotStep_Low)

lemma idx_findPivots:
  "idx ` set (findPivots candles config ty) =
     {i. swingLength config \<le> i \<and> i + swingLength config < length candles \<and>
         isPivotAt ty candles (swingLength config) i}"
  by (auto simp: findPivots_eq mkPivot_def image_iff)

section \<open>The predicates of the scorer when the last bar exists\<close>

lemma find_js_bull_Some:
  "find_js (inBullZone (Some lc)) zs =
     Inr (find (\<lambda>z. type_z z = Bullish \<and> low lc \<le> top_z z \<and> close lc \<ge> bottom z) zs)"
  by (induction zs) (simp_all add: inBullZone_def)

lemma find_js_bear_Some:
  "find_js (inBearZone (Some lc)) zs =
     Inr (find (\<lambda>z. type_z z = Bearish \<and> high lc \<ge> bottom z \<and> close lc \<le> top_z z) zs)"
  by (induction zs) (simp_all add: inBearZone_def)

lemma some_js_bull_Some:
  "some_js (inBullZone (Some lc)) zs =
     Inr (list_ex (\<lambda>z. type_z z = Bullish \<and> low lc \<le> top_z z \<and> close lc \<ge> bottom z) zs)"
  by (induction zs) (auto simp: inBullZone_def)

lemma some_js_bear_Some:
  "some_js (inBearZone (Some lc)) zs =
     Inr (list_ex (\<lambda>z. type_z z = Bearish \<and> high lc \<ge> bottom z \<and> close lc \<le> top_z z) zs)"
  by (induction zs) (auto simp: inBearZone_def)

lemma find_not_None_iff: "find P xs \<noteq> None \<longleftrightarrow> list_ex P xs"
  by (induction xs) simp_all

lemma find_Some_ex_iff: "(\<exists>y. find P xs = Some y) \<longleftrightarrow> list_ex P xs"
  by (induction xs) simp_all

lemma bullSweepOf_Some:
  "bullSweepOf (Some lc) ps =
     Inr (ps \<noteq> [] \<and> low lc < val (last ps) \<and> close lc > val (last ps))"
  by (auto simp: bullSweepOf_def Let_def last_conv_nth)

lemma bearSweepOf_Some:
  "bearSweepOf (Some lc) ps =
     Inr (ps \<noteq> [] \<and> high lc > val (last ps) \<and> close lc < val (last ps))"
  by (auto simp: bearSweepOf_def Let_def last_conv_nth)

lemma detect_Nil:
  "detectFVGs [] = []" "detectOBs [] = []" "findPivots [] config ty = []"
  by (simp_all add: detectFVGs_def detectOBs_def findPivots_def)

text \<open>
  On the empty array the extended engine throws exactly when the minimum confluence is
  0: both scores are 0, the test \<^verbatim>\<open>bullScore >= config.minConfluence\<close> holds and
  \<^verbatim>\<open>lastCandle.close\<close> reads a property of \<^verbatim>\<open>undefined\<close>.
\<close>

lemma analyze_Nil:
  "analyzePriceData [] config =
    (if minConfluence config = 0 then Inl TypeError
     else Inr \<lparr>bullScore = 0, bearScore = 0,
            confluences =
              \<lparr>bullish = \<lparr>ob = False, fvg = False, bos = False, sweep = False\<rparr>,
               bearish = \<lparr>ob = False, fvg = False, bos = False, sweep = False\<rparr>\<rparr>,
            orderBlocks = [], fvgs = [], structure_r = [], signal = NEUTRAL,
            entryPrice = None, slPrice = None, tpPrice = None, rrRatio_r = None,
            pnlEstimate = None\<rparr>)"
  by (simp add: analyzePriceData_def detect_Nil lastOf_def bullSweepOf_def bearSweepOf_def
      bosLogic_def countTrue_def)

section \<open>The results of the two engines\<close>

text \<open>
  When there is at least one bar no read of \<^verbatim>\<open>lastCandle\<close> throws, and the fields
  of the result are the outputs of the detectors and the booleans of the scorer.
\<close>

lemma analyze_nonempty:
  assumes "candles \<noteq> []"
  shows "\<exists>r. analyzePriceData candles config = Inr r \<and>
     fvgs r = detectFVGs candles \<and>
     orderBlocks r = detectOBs candles \<and>
     structure_r r = bosLogic (findPivots candles config High) (findPivots candles config Low) \<and>
     confluences r =
       \<lparr>bullish =
          \<lparr>ob = list_ex (\<lambda>z. type_z z = Bullish \<and> low (last candles) \<le> top_z z \<and>
                              close (last candles) \<ge> bottom z) (detectOBs candles),
           fvg = list_ex (\<lambda>z. type_z z = Bullish \<and> low (last candles) \<le> top_z z \<and>
                              close (last candles) \<ge> bottom z) (detectFVGs candles),
           bos = list_ex (\<lambda>s. direction s = Bullish)
                   (bosLogic (findPivots candles config High) (findPivots candles config Low)),
           sweep = (findPivots candles config Low \<noteq> [] \<and>
                    low (last candles) < val (last (findPivots candles config Low)) \<and>
                    close (last candles) > val (last (findPivots candles config Low)))\<rparr>,
        bearish =
          \<lparr>ob = list_ex (\<lambda>z. type_z z = Bearish \<and> high (last candles) \<ge> bottom z \<and>
                              close (last candles) \<le> top_z z) (detectOBs candles),
           fvg = list_ex (\<lambda>z. type_z z = Bearish \<and> high (last candles) \<ge> bottom z \<and>
                              close (last candles) \<le> top_z z) (detectFVGs candles),
           bos = list_ex (\<lambda>s. direction s = Bearish)
                   (bosLogic (findPivots candles config High) (findPivots candles config Low)),
           sweep = (findPivots candles config High \<noteq> [] \<and>
                    high (last candles) > val (last (findPivots candles config High)) \<and>
                    close (last candles) < val (last (findPivots candles config High)))\<rparr>\<rparr> \<and>
     bullScore r = countTrue (bullish (confluences r)) \<and>
     bearScore r = countTrue (bearish (confluences r)) \<and>
     signal r = (if bullScore r \<ge> minConfluence config then BUY
                 else if bearScore r \<ge> minConfluence config then SELL else NEUTRAL)"
  using assms
  by (simp add: analyzePriceData_def lastOf_def bullSweepOf_Some bearSweepOf_Some
      find_js_bull_Some find_js_bear_Some some_js_bull_Some some_js_bear_Some
      find_not_None_iff find_Some_ex_iff Let_def)

lemma base_Nil:
  "analyzePriceData_base [] config =
     Inr \<lparr>bullScore_b = 0, bearScore_b = 0, orderBlocks_b = [], fvgs_b = [],
          structure_b = [],
          signal_b = (if minConfluence config = 0 then BUY else NEUTRAL)\<rparr>"
  by (simp add: analyzePriceData_base_def detect_Nil lastOf_def bosLogic_def)

lemma base_nonempty:
  assumes "candles \<noteq> []"
  shows "\<exists>r. analyzePriceData_base candles config = Inr r \<and>
     fvgs_b r = detectFVGs candles \<and>
     orderBlocks_b r = detectOBs candles \<and>
     structure_b r = bosLogic (findPivots candles config High) (findPivots candles config Low) \<and>
     bullScore_b r =
       (if list_ex (\<lambda>z. type_z z = Bullish \<and> low (last candles) \<le> top_z z \<and>
                              close (last candles) \<ge> bottom z) (detectOBs candles) then 1 else 0) +
       (if list_ex (\<lambda>z. type_z z = Bullish \<and> low (last candles) \<le> top_z z \<and>
                              close (last candles) \<ge> bottom z) (detectFVGs candles) then 1 else 0) +
       (if list_ex (\<lambda>s. direction s = Bullish)
                   (bosLogic (findPivots candles config High) (findPivots candles config Low))
        then 1 else 0) \<and>
     bearScore_b r =
       (if list_ex (\<lambda>z. type_z z = Bearish \<and> high (last candles) \<ge> bottom z \<and>
                              close (last candles) \<le> top_z z) (detectOBs candles) then 1 else 0) +
       (if list_ex (\<lambda>z. type_z z = Bearish \<and> high (last candles) \<ge> bottom z \<and>
                              close (last candles) \<le> top_z z) (detectFVGs candles) then 1 else 0) +
       (if list_ex (\<lambda>s. direction s = Bearish)
                   (bosLogic (findPivots candles config High) (findPivots candles config Low))
        then 1 else 0) \<and>
     signal_b r = (if bullScore_b r \<ge> minConfluence config then BUY
                 else if bearScore_b r \<ge> minConfluence config then SELL else NEUTRAL)"
  using assms
  by (simp add: analyzePriceData_base_def lastOf_def some_js_bull_Some some_js_bear_Some Let_def)

section \<open>Signal decision\<close>

text \<open>
  Claim C1. For every bar sequence and every configuration, the empty sequence with a
  minimum confluence of 0 apart (the data model has a minimum of at least 1; see
  \<open>analyze_Nil\<close> for that input), both engines return a result whose signal is BUY when
  the bull score reaches the minimum confluence, otherwise SELL when the bear score
  reaches it, otherwise NEUTRAL; in particular the signal is BUY whenever both scores
  reach the minimum.
\<close>

theorem signal_decision:
  assumes "candles \<noteq> [] \<or> 1 \<le> minConfluence config"
  shows "(\<exists>r. analyzePriceData candles config = Inr r \<and>
            signal r = (if bullScore r \<ge> minConfluence config then BUY
                        else if bearScore r \<ge> minConfluence config then SELL
                        else NEUTRAL) \<and>
            (bullScore r \<ge> minConfluence config \<and> bearScore r \<ge> minConfluence config
               \<longrightarrow> signal r = BUY)) \<and>
         (\<exists>b. analyzePriceData_base candles config = Inr b \<and>
            signal_b b = (if bullScore_b b \<ge> minConfluence config then BUY
                          else if bearScore_b b \<ge> minConfluence config then SELL
                          else NEUTRAL) \<and>
            (bullScore_b b \<ge> minConfluence config \<and> bearScore_b b \<ge> minConfluence config
               \<longrightarrow> signal_b b = BUY))"
proof (cases "candles = []")
  case True
  with assms show ?thesis
    by (simp add: analyze_Nil base_Nil)
next
  case False
  from analyze_nonempty [OF False, of config] base_nonempty [OF False, of config]
  show ?thesis by fastforce
qed

text \<open>
  On the widening bars with half-window 1 and minimum confluence 1 both scores are 1, and
  both engines answer BUY.
\<close>

theorem signal_decision_witness:
  "1 \<le> minConfluence (config_of 1 1 2 0.1) \<and>
   (\<exists>r. analyzePriceData (widening 5 8) (config_of 1 1 2 0.1) = Inr r \<and>
        bullScore r = 1 \<and> bearScore r = 1 \<and> signal r = BUY) \<and>
   (\<exists>b. analyzePriceData_base (widening 5 8) (config_of 1 1 2 0.1) = Inr b \<and>
        bullScore_b b = 1 \<and> bearScore_b b = 1 \<and> signal_b b = BUY)"
proof -
  have h: "1 \<le> minConfluence (config_of 1 1 2 0.1)"
    by (simp add: config_of_def)
  have e: "case analyzePriceData (widening 5 8) (config_of 1 1 2 0.1) of
             Inl e \<Rightarrow> False | Inr r \<Rightarrow> bullScore r = 1 \<and> bearScore r = 1"
    by code_simp
  have b: "case analyzePriceData_base (widening 5 8) (config_of 1 1 2 0.1) of
             Inl e \<Rightarrow> False | Inr r \<Rightarrow> bullScore_b r = 1 \<and> bearScore_b r = 1"
    by code_simp
  from h have d: "widening 5 8 \<noteq> [] \<or> 1 \<le> minConfluence (config_of 1 1 2 0.1)" ..
  from signal_decision [OF d] e b show ?thesis
    by (auto simp: config_of_def split: sum.splits)
qed

section \<open>The empty sequence\<close>

text \<open>
  Claim C3. On the empty bar sequence, with a minimum confluence of at least 1, the
  extended engine does not throw: it returns the result with no order block, no fair
  value gap and no structure event, both scores 0, every confluence flag false, the
  signal NEUTRAL and no entry, stop, target, risk-reward or estimated return.
\<close>

theorem empty_sequence:
  assumes "1 \<le> minConfluence config"
  shows "analyzePriceData [] config =
     Inr \<lparr>bullScore = 0, bearScore = 0,
          confluences =
            \<lparr>bullish = \<lparr>ob = False, fvg = False, bos = False, sweep = False\<rparr>,
             bearish = \<lparr>ob = False, fvg = False, bos = False, sweep = False\<rparr>\<rparr>,
          orderBlocks = [], fvgs = [], structure_r = [], signal = NEUTRAL,
          entryPrice = None, slPrice = None, tpPrice = None, rrRatio_r = None,
          pnlEstimate = None\<rparr>"
  using assms by (simp add: analyze_Nil)

theorem empty_sequence_witness:
  "1 \<le> minConfluence (config_of 5 2 2 0.1) \<and>
   plan (analyzePriceData [] (config_of 5 2 2 0.1)) = Inr (NEUTRAL, None, None, None, None)"
proof -
  have h: "1 \<le> minConfluence (config_of 5 2 2 0.1)"
    by (simp add: config_of_def)
  show ?thesis
    using h empty_sequence [OF h] by (simp add: plan_def)
qed

section \<open>Short sequences\<close>

text \<open>
  Claim C6. A bar sequence of fewer than 3 bars has no fair value gap, one of fewer than
  2 bars has no order block, and one of fewer than \<open>2 * L + 1\<close> bars has neither a high
  nor a low pivot for the half-window \<open>L\<close>.
\<close>

theorem short_sequences:
  "(length candles < 3 \<longrightarrow> detectFVGs candles = []) \<and>
   (length candles < 2 \<longrightarrow> detectOBs candles = []) \<and>
   (length candles < 2 * swingLength config + 1 \<longrightarrow>
      findPivots candles config High = [] \<and> findPivots candles config Low = [])"
  by (auto simp: detectFVGs_def detectOBs_def findPivots_def)

theorem short_sequences_witness:
  "length [candle 0 1 2 0 1, candle 1 1 2 0 1] < 3 \<and>
   detectFVGs [candle 0 1 2 0 1, candle 1 1 2 0 1] = [] \<and>
   length [candle 0 1 2 0 1] < 2 \<and>
   detectOBs [candle 0 1 2 0 1] = [] \<and>
   length (widening 5 8) < 2 * swingLength (config_of 5 2 2 0.1) + 1 \<and>
   findPivots (widening 5 8) (config_of 5 2 2 0.1) High = [] \<and>
   findPivots (widening 5 8) (config_of 5 2 2 0.1) Low = []"
proof -
  have a: "length [candle 0 1 2 0 1, candle 1 1 2 0 1] < 3" by simp
  have b: "length [candle 0 1 2 0 1] < 2" by simp
  have c: "length (widening 5 8) < 2 * swingLength (config_of 5 2 2 0.1) + 1"
    by (simp add: widening_def config_of_def)
  show ?thesis
    using a b c
      short_sequences [of "[candle 0 1 2 0 1, candle 1 1 2 0 1]" "config_of 5 2 2 0.1"]
      short_sequences [of "[candle 0 1 2 0 1]" "config_of 5 2 2 0.1"]
      short_sequences [of "widening 5 8" "config_of 5 2 2 0.1"]
    by blast
qed

section \<open>Pivots\<close>

text \<open>
  Claim C5. For a half-window \<open>L \<ge> 1\<close>, the index \<open>i\<close> is reported as a high pivot
  exactly when \<open>L \<le> i \<le> length - L - 1\<close> and the high of bar \<open>i\<close> is strictly greater
  than the highs of the bars \<open>i - j\<close> and \<open>i + j\<close> for every \<open>j\<close> from 1 to \<open>L\<close>; the same
  holds for low pivots with strictly smaller lows. A reported pivot carries the high (or
  low) and the time of its bar. Consequently no index of a run of two or more bars with
  equal highs is reported as a high pivot.
\<close>

theorem pivot_characterisation:
  assumes "1 \<le> swingLength config"
  shows
   "(i \<in> idx ` set (findPivots candles config High) \<longleftrightarrow>
       swingLength config \<le> i \<and> i + swingLength config < length candles \<and>
       (\<forall>j. 1 \<le> j \<and> j \<le> swingLength config \<longrightarrow>
          high (candles ! (i - j)) < high (candles ! i) \<and>
          high (candles ! (i + j)) < high (candles ! i))) \<and>
    (i \<in> idx ` set (findPivots candles config Low) \<longleftrightarrow>
       swingLength config \<le> i \<and> i + swingLength config < length candles \<and>
       (\<forall>j. 1 \<le> j \<and> j \<le> swingLength config \<longrightarrow>
          low (candles ! i) < low (candles ! (i - j)) \<and>
          low (candles ! i) < low (candles ! (i + j)))) \<and>
    (\<forall>p \<in> set (findPivots candles config High).
       val p = high (candles ! idx p) \<and> time_p p = time (candles ! idx p)) \<and>
    (\<forall>p \<in> set (findPivots candles config Low).
       val p = low (candles ! idx p) \<and> time_p p = time (candles ! idx p)) \<and>
    (a < b \<and> b < length candles \<and>
     (\<forall>k. a \<le> k \<and> k \<le> b \<longrightarrow> high (candles ! k) = high (candles ! a)) \<and>
     a \<le> i \<and> i \<le> b
       \<longrightarrow> i \<notin> idx ` set (findPivots candles config High))"
proof (intro conjI)
  show "i \<in> idx ` set (findPivots candles config High) \<longleftrightarrow>
       swingLength config \<le> i \<and> i + swingLength config < length candles \<and>
       (\<forall>j. 1 \<le> j \<and> j \<le> swingLength config \<longrightarrow>
          high (candles ! (i - j)) < high (candles ! i) \<and>
          high (candles ! (i + j)) < high (candles ! i))"
    by (simp add: idx_findPivots isPivotAt_High)
  show "i \<in> idx ` set (findPivots candles config Low) \<longleftrightarrow>
       swingLength config \<le> i \<and> i + swingLength config < length candles \<and>
       (\<forall>j. 1 \<le> j \<and> j \<le> swingLength config \<longrightarrow>
          low (candles ! i) < low (candles ! (i - j)) \<and>
          low (candles ! i) < low (candles ! (i + j)))"
    by (simp add: idx_findPivots isPivotAt_Low)
  show "\<forall>p \<in> set (findPivots candles config High).
       val p = high (candles ! idx p) \<and> time_p p = time (candles ! idx p)"
    by (auto simp: findPivots_eq mkPivot_def)
  show "\<forall>p \<in> set (findPivots candles config Low).
       val p = low (candles ! idx p) \<and> time_p p = time (candles ! idx p)"
    by (auto simp: findPivots_eq mkPivot_def)
  show "a < b \<and> b < length candles \<and>
     (\<forall>k. a \<le> k \<and> k \<le> b \<longrightarrow> high (candles ! k) = high (candles ! a)) \<and>
     a \<le> i \<and> i \<le> b
       \<longrightarrow> i \<notin> idx ` set (findPivots candles config High)"
  proof (intro impI notI, elim conjE)
    assume ab: "a < b" and flat: "\<forall>k. a \<le> k \<and> k \<le> b \<longrightarrow> high (candles ! k) = high (candles ! a)"
      and i: "a \<le> i" "i \<le> b"
      and piv: "i \<in> idx ` set (findPivots candles config High)"
    from piv have "isPivotAt High candles (swingLength config) i"
      by (simp add: idx_findPivots)
    then have P: "\<And>j. 1 \<le> j \<Longrightarrow> j \<le> swingLength config \<Longrightarrow>
        high (candles ! (i - j)) < high (candles ! i) \<and>
        high (candles ! (i + j)) < high (candles ! i)"
      unfolding isPivotAt_High by blast
    have F: "\<And>k. a \<le> k \<Longrightarrow> k \<le> b \<Longrightarrow> high (candles ! k) = high (candles ! a)"
      using flat by blast
    have hi: "high (candles ! i) = high (candles ! a)"
      using F i by blast
    show False
    proof (cases "i < b")
      case True
      then have "high (candles ! (i + 1)) = high (candles ! a)"
        using F [of "i + 1"] i by simp
      moreover have "high (candles ! (i + 1)) < high (candles ! i)"
        using P [of 1] assms by simp
      ultimately show False using hi by simp
    next
      case False
      with i ab have "a \<le> i - 1" "i - 1 \<le> b" by simp_all
      then have "high (candles ! (i - 1)) = high (candles ! a)"
        by (rule F)
      moreover have "high (candles ! (i - 1)) < high (candles ! i)"
        using P [of 1] assms by simp
      ultimately show False using hi by simp
    qed
  qed
qed

text \<open>
  On the widening bars index 3 is a high pivot and index 2 is not; on the plateau neither
  of the two bars that share the highest high is one.
\<close>

theorem pivot_characterisation_witness:
  "1 \<le> swingLength (config_of 1 1 2 0.1) \<and>
   3 \<in> idx ` set (findPivots (widening 5 8) (config_of 1 1 2 0.1) High) \<and>
   2 \<notin> idx ` set (findPivots (widening 5 8) (config_of 1 1 2 0.1) High) \<and>
   1 \<notin> idx ` set (findPivots plateau (config_of 1 1 2 0.1) High) \<and>
   2 \<notin> idx ` set (findPivots plateau (config_of 1 1 2 0.1) High)"
proof -
  have h: "1 \<le> swingLength (config_of 1 1 2 0.1)"
    by (simp add: config_of_def)
  note c1 = pivot_characterisation [OF h, THEN conjunct1]
  note c5 = pivot_characterisation [OF h, THEN conjunct2, THEN conjunct2, THEN conjunct2,
      THEN conjunct2]
  have one: "\<And>j::nat. (1 \<le> j \<and> j \<le> swingLength (config_of 1 1 2 0.1)) = (j = 1)"
    by (auto simp: config_of_def)
  have L: "swingLength (config_of 1 1 2 0.1) = 1" by (simp add: config_of_def)
  have w3: "3 \<in> idx ` set (findPivots (widening 5 8) (config_of 1 1 2 0.1) High)"
    unfolding c1 [of 3 "widening 5 8"] one L by (simp add: widening_def candle_def)
  have w2: "2 \<notin> idx ` set (findPivots (widening 5 8) (config_of 1 1 2 0.1) High)"
    unfolding c1 [of 2 "widening 5 8"] one L by (simp add: widening_def candle_def)
  have flat: "\<forall>k. (1::nat) \<le> k \<and> k \<le> 2 \<longrightarrow> high (plateau ! k) = high (plateau ! 1)"
  proof (intro allI impI)
    fix k :: nat assume "1 \<le> k \<and> k \<le> 2"
    then have "k = 1 \<or> k = 2" by auto
    then show "high (plateau ! k) = high (plateau ! 1)"
      by (auto simp: plateau_def candle_def)
  qed
  have len: "(1::nat) < 2 \<and> 2 < length plateau" by (simp add: plateau_def)
  have t1: "(1::nat) \<le> 1 \<and> (1::nat) \<le> 2" and t2: "(1::nat) \<le> 2 \<and> (2::nat) \<le> 2"
    by simp_all
  have p1: "1 \<notin> idx ` set (findPivots plateau (config_of 1 1 2 0.1) High)"
    using c5 [of 1 2 plateau 1] flat len t1 by blast
  have p2: "2 \<notin> idx ` set (findPivots plateau (config_of 1 1 2 0.1) High)"
    using c5 [of 1 2 plateau 2] flat len t2 by blast
  from h w3 w2 p1 p2 show ?thesis by blast
qed

lemma pivots_apart:
  assumes "isPivotAt ty candles L i" "isPivotAt ty candles L k" "i < k"
  shows "i + L < k"
proof (rule ccontr)
  assume "\<not> i + L < k"
  with \<open>i < k\<close> have d: "1 \<le> k - i" "k - i \<le> L" by simp_all
  have ik: "i + (k - i) = k" "k - (k - i) = i" using \<open>i < k\<close> by simp_all
  show False
  proof (cases ty)
    case High
    from assms(1) d have "high (candles ! (i + (k - i))) < high (candles ! i)"
      unfolding High isPivotAt_High by blast
    moreover from assms(2) d have "high (candles ! (k - (k - i))) < high (candles ! k)"
      unfolding High isPivotAt_High by blast
    ultimately show False by (simp add: ik)
  next
    case Low
    from assms(1) d have "low (candles ! i) < low (candles ! (i + (k - i)))"
      unfolding Low isPivotAt_Low by blast
    moreover from assms(2) d have "low (candles ! k) < low (candles ! (k - (k - i)))"
      unfolding Low isPivotAt_Low by blast
    ultimately show False by (simp add: ik)
  qed
qed

lemma sorted_wrt_filter_upt:
  assumes "\<And>i k. P i \<Longrightarrow> P k \<Longrightarrow> i < k \<Longrightarrow> R i k"
  shows "sorted_wrt R (filter P [a ..< b])"
proof -
  have "sorted_wrt (\<lambda>i k. i < k) (filter P [a ..< b])"
    by (rule sorted_wrt_filter) (simp add: sorted_wrt_upt)
  then show ?thesis
    by (rule sorted_wrt_mono_rel [rotated]) (use assms in auto)
qed

text \<open>
  Claim C10. The pivots of one kind are reported in strictly increasing order of index,
  and the indices of any two of them differ by more than the half-window \<open>L\<close>.
\<close>

theorem pivots_spaced:
  "sorted_wrt (\<lambda>p q. idx p + swingLength config < idx q) (findPivots candles config ty) \<and>
   (\<forall>p \<in> set (findPivots candles config ty). \<forall>q \<in> set (findPivots candles config ty).
      p \<noteq> q \<longrightarrow>
        idx p + swingLength config < idx q \<or> idx q + swingLength config < idx p)"
proof
  show s: "sorted_wrt (\<lambda>p q. idx p + swingLength config < idx q) (findPivots candles config ty)"
    unfolding findPivots_eq sorted_wrt_map
    by (rule sorted_wrt_filter_upt) (simp add: mkPivot_def pivots_apart)
  show "\<forall>p \<in> set (findPivots candles config ty). \<forall>q \<in> set (findPivots candles config ty).
      p \<noteq> q \<longrightarrow>
        idx p + swingLength config < idx q \<or> idx q + swingLength config < idx p"
  proof (intro ballI impI)
    fix p q
    assume p: "p \<in> set (findPivots candles config ty)"
      and q: "q \<in> set (findPivots candles config ty)" and ne: "p \<noteq> q"
    from p obtain i where i: "p = mkPivot ty candles i"
      "isPivotAt ty candles (swingLength config) i"
      by (auto simp: findPivots_eq)
    from q obtain k where k: "q = mkPivot ty candles k"
      "isPivotAt ty candles (swingLength config) k"
      by (auto simp: findPivots_eq)
    from ne i k have "i \<noteq> k" by auto
    then consider "i < k" | "k < i" by linarith
    then show "idx p + swingLength config < idx q \<or> idx q + swingLength config < idx p"
    proof cases
      case 1
      with i k show ?thesis by (simp add: mkPivot_def pivots_apart)
    next
      case 2
      with i k show ?thesis by (simp add: mkPivot_def pivots_apart)
    qed
  qed
qed

text \<open>The two high pivots of the widening bars, at the indices 1 and 3.\<close>

theorem pivots_spaced_witness:
  "map idx (findPivots (widening 5 8) (config_of 1 1 2 0.1) High) = [1, 3] \<and>
   idx (mkPivot High (widening 5 8) 1) + swingLength (config_of 1 1 2 0.1)
     < idx (mkPivot High (widening 5 8) 3)"
proof -
  have e: "findPivots (widening 5 8) (config_of 1 1 2 0.1) High =
           [mkPivot High (widening 5 8) 1, mkPivot High (widening 5 8) 3]"
    by code_simp
  have ne: "mkPivot High (widening 5 8) 1 \<noteq> mkPivot High (widening 5 8) 3"
    by (simp add: mkPivot_def)
  have nlt: "\<not> idx (mkPivot High (widening 5 8) 3) + swingLength (config_of 1 1 2 0.1)
     < idx (mkPivot High (widening 5 8) 1)"
    by (simp add: mkPivot_def)
  from pivots_spaced [of "config_of 1 1 2 0.1" "widening 5 8" High] e ne nlt
  have "idx (mkPivot High (widening 5 8) 1) + swingLength (config_of 1 1 2 0.1)
     < idx (mkPivot High (widening 5 8) 3)"
    by auto
  with e show ?thesis by (simp add: mkPivot_def)
qed

section \<open>The zones of the two detectors\<close>

lemma fvg_exclusive: "\<not> (bullishFVG c2 c1 c0 \<and> bearishFVG c2 c1 c0)"
  by (auto simp: bullishFVG_def bearishFVG_def)

lemma fvgStep_cases:
  "fvgStep candles i [] =
    (if bullishFVG (candles ! (i - 2)) (candles ! (i - 1)) (candles ! i)
     then [\<lparr>type_z = Bullish, top_z = low (candles ! i), bottom = high (candles ! (i - 2)),
            index = i - 1, startTime = time (candles ! (i - 1)), isValid = True\<rparr>]
     else if bearishFVG (candles ! (i - 2)) (candles ! (i - 1)) (candles ! i)
     then [\<lparr>type_z = Bearish, top_z = low (candles ! (i - 2)), bottom = high (candles ! i),
            index = i - 1, startTime = time (candles ! (i - 1)), isValid = True\<rparr>]
     else [])"
  using fvg_exclusive [of "candles ! (i - 2)" "candles ! (i - 1)" "candles ! i"]
  by (auto simp: fvgStep_def Let_def)

lemma in_detectFVGs:
  "z \<in> set (detectFVGs candles) \<longleftrightarrow>
     (\<exists>i. 2 \<le> i \<and> i < length candles \<and> z \<in> set (fvgStep candles i []))"
  by (auto simp: detectFVGs_eq)

lemma in_detectOBs:
  "z \<in> set (detectOBs candles) \<longleftrightarrow>
     (\<exists>i. 1 \<le> i \<and> i < length candles \<and> z \<in> set (obStep candles i []))"
  by (auto simp: detectOBs_eq)

lemma fvg_top_bottom: "z \<in> set (detectFVGs candles) \<Longrightarrow> bottom z < top_z z"
  by (auto simp: in_detectFVGs fvgStep_cases bullishFVG_def bearishFVG_def split: if_splits)

lemma ob_origin:
  assumes "z \<in> set (detectOBs candles)"
  shows "\<exists>c \<in> set candles. top_z z = high c \<and> bottom z = low c"
proof -
  from assms obtain i where i: "1 \<le> i" "i < length candles" "z \<in> set (obStep candles i [])"
    by (auto simp: in_detectOBs)
  then have "top_z z = high (candles ! (i - 1)) \<and> bottom z = low (candles ! (i - 1))"
    by (auto simp: obStep_def Let_def split: if_splits)
  moreover from i have "candles ! (i - 1) \<in> set candles" by simp
  ultimately show ?thesis by blast
qed

lemma index_fvgSteps:
  "concat (map (\<lambda>i. map index (fvgStep candles i [])) xs) =
     map (\<lambda>i. i - 1) (filter (\<lambda>i. fvgStep candles i [] \<noteq> []) xs)"
  by (induction xs) (auto simp: fvgStep_cases)

lemma distinct_index_fvgs: "distinct (map index (detectFVGs candles))"
proof -
  have "map index (detectFVGs candles) =
        concat (map (\<lambda>i. map index (fvgStep candles i [])) [2 ..< length candles])"
    by (simp add: detectFVGs_eq map_concat comp_def)
  then have e: "map index (detectFVGs candles) =
      map (\<lambda>i. i - 1) (filter (\<lambda>i. fvgStep candles i [] \<noteq> []) [2 ..< length candles])"
    by (simp only: index_fvgSteps)
  show ?thesis
    unfolding e by (auto simp: distinct_map inj_on_def)
qed

text \<open>
  Claim C4, as amended. No bar triple passes both the bullish and the bearish test of the
  gap detector, since the first needs the middle bar to close above its open and the
  second needs it to close below. The detector therefore adds at most one zone per
  index \<open>i\<close>, and no two zones of its output have the same origin index.
\<close>

theorem imbalance_checks_exclusive:
  "\<not> (bullishFVG (candles ! (i - 2)) (candles ! (i - 1)) (candles ! i) \<and>
      bearishFVG (candles ! (i - 2)) (candles ! (i - 1)) (candles ! i)) \<and>
   length (fvgStep candles i []) \<le> 1 \<and>
   distinct (map index (detectFVGs candles))"
  using fvg_exclusive [of "candles ! (i - 2)" "candles ! (i - 1)" "candles ! i"]
  by (simp add: fvgStep_cases distinct_index_fvgs)

text \<open>
  The claim as the specification states it, that some bar sequence makes both tests pass
  at one index, has no instance.
\<close>

theorem imbalance_checks_counterexample:
  "\<not> (\<exists>candles i. 2 \<le> i \<and> i < length candles \<and>
         bullishFVG (candles ! (i - 2)) (candles ! (i - 1)) (candles ! i) \<and>
         bearishFVG (candles ! (i - 2)) (candles ! (i - 1)) (candles ! i))"
  using fvg_exclusive by blast

lemma analyze_lists:
  assumes "analyzePriceData candles config = Inr r"
  shows "fvgs r = detectFVGs candles \<and> orderBlocks r = detectOBs candles"
proof (cases "candles = []")
  case True
  with assms show ?thesis by (auto simp: analyze_Nil detect_Nil split: if_splits)
next
  case False
  from analyze_nonempty [OF False, of config] assms show ?thesis by auto
qed

lemma base_lists:
  assumes "analyzePriceData_base candles config = Inr b"
  shows "fvgs_b b = detectFVGs candles \<and> orderBlocks_b b = detectOBs candles"
proof (cases "candles = []")
  case True
  with assms show ?thesis by (auto simp: base_Nil detect_Nil)
next
  case False
  from base_nonempty [OF False, of config] assms show ?thesis by auto
qed

lemma ob_top_bottom:
  assumes "\<forall>c \<in> set candles. low c \<le> high c" "z \<in> set (detectOBs candles)"
  shows "bottom z \<le> top_z z"
  using ob_origin [OF assms(2)] assms(1) by auto

text \<open>
  Claim C7. When every bar has \<open>low \<le> high\<close>, every fair value gap and every order
  block, of the detectors and of the results of both engines, has \<open>bottom \<le> top\<close>.
\<close>

theorem zones_top_ge_bottom:
  assumes "\<forall>c \<in> set candles. low c \<le> high c"
  shows "(\<forall>z \<in> set (detectFVGs candles). bottom z \<le> top_z z) \<and>
         (\<forall>z \<in> set (detectOBs candles). bottom z \<le> top_z z) \<and>
         (\<forall>r. analyzePriceData candles config = Inr r \<longrightarrow>
            (\<forall>z \<in> set (fvgs r) \<union> set (orderBlocks r). bottom z \<le> top_z z)) \<and>
         (\<forall>b. analyzePriceData_base candles config = Inr b \<longrightarrow>
            (\<forall>z \<in> set (fvgs_b b) \<union> set (orderBlocks_b b). bottom z \<le> top_z z))"
proof -
  have f: "\<forall>z \<in> set (detectFVGs candles). bottom z \<le> top_z z"
    using fvg_top_bottom by (auto simp: less_imp_le)
  have o: "\<forall>z \<in> set (detectOBs candles). bottom z \<le> top_z z"
    using ob_top_bottom [OF assms] by blast
  from f o show ?thesis
    by (auto dest!: analyze_lists base_lists)
qed

text \<open>
  The bars \<open>gapUp\<close> give one order block and one fair value gap, both with the bottom
  below the top.
\<close>

theorem zones_top_ge_bottom_witness:
  "list_all (\<lambda>c. low c \<le> high c) gapUp \<and>
   (\<exists>r. analyzePriceData gapUp (config_of 1 1 2 0.1) = Inr r \<and>
      length (fvgs r) = 1 \<and> length (orderBlocks r) = 1 \<and>
      list_all (\<lambda>z. bottom z \<le> top_z z) (fvgs r @ orderBlocks r))"
proof -
  have g: "list_all (\<lambda>c. low c \<le> high c) gapUp"
    by (simp add: gapUp_def candle_def)
  have "case analyzePriceData gapUp (config_of 1 1 2 0.1) of
          Inl e \<Rightarrow> False | Inr r \<Rightarrow> length (fvgs r) = 1 \<and> length (orderBlocks r) = 1"
    by code_simp
  then obtain r where r: "analyzePriceData gapUp (config_of 1 1 2 0.1) = Inr r"
    "length (fvgs r) = 1" "length (orderBlocks r) = 1"
    by (auto split: sum.splits)
  from zones_top_ge_bottom [OF g [unfolded list_all_iff], of "config_of 1 1 2 0.1"] r(1)
  have "list_all (\<lambda>z. bottom z \<le> top_z z) (fvgs r @ orderBlocks r)"
    by (auto simp: list_all_iff)
  with g r show ?thesis by blast
qed

section \<open>The trade plan\<close>

text \<open>At the identity rounding the rounded engine is the engine in exact arithmetic.\<close>

lemma detect_fl_id:
  "detectFVGs_fl (\<lambda>x. x) candles = detectFVGs candles"
  "detectOBs_fl (\<lambda>x. x) candles = detectOBs candles"
proof -
  have "fvgStep_fl (\<lambda>x. x) candles = fvgStep candles"
    by (intro ext) (simp add: fvgStep_fl_def fvgStep_def bullishFVG_fl_def bullishFVG_def
        bearishFVG_fl_def bearishFVG_def)
  then show "detectFVGs_fl (\<lambda>x. x) candles = detectFVGs candles"
    by (simp add: detectFVGs_fl_def detectFVGs_def)
  have "obStep_fl (\<lambda>x. x) candles = obStep candles"
    by (intro ext) (simp add: obStep_fl_def obStep_def bullishOB_fl_def bullishOB_def
        bearishOB_fl_def bearishOB_def)
  then show "detectOBs_fl (\<lambda>x. x) candles = detectOBs candles"
    by (simp add: detectOBs_fl_def detectOBs_def)
qed

lemma js_fl_id:
  "js_div_fl (\<lambda>x. x) a b = js_div a b" "js_times_fl (\<lambda>x. x) n k = js_times n k"
  by (simp add: js_div_fl_def js_div_def) (cases n; simp)

lemma analyze_fl_id: "analyzePriceData_fl (\<lambda>x. x) candles config = analyzePriceData candles config"
  by (simp add: analyzePriceData_fl_def analyzePriceData_def detect_fl_id js_fl_id Let_def cong: sum.case_cong option.case_cong if_cong)

lemma obStep_fl_append: "obStep_fl rnd candles i acc = acc @ obStep_fl rnd candles i []"
  by (simp add: obStep_fl_def Let_def)

lemma fold_obStep_fl:
  "fold (obStep_fl rnd candles) xs acc =
     acc @ concat (map (\<lambda>i. obStep_fl rnd candles i []) xs)"
proof (induction xs arbitrary: acc)
  case Nil
  then show ?case by simp
next
  case (Cons x xs)
  have "fold (obStep_fl rnd candles) (x # xs) acc =
        fold (obStep_fl rnd candles) xs (obStep_fl rnd candles x acc)"
    by simp
  also have "\<dots> = obStep_fl rnd candles x acc @ concat (map (\<lambda>i. obStep_fl rnd candles i []) xs)"
    by (rule Cons.IH)
  also have "obStep_fl rnd candles x acc = acc @ obStep_fl rnd candles x []"
    by (rule obStep_fl_append)
  finally show ?case by simp
qed

lemma ob_fl_origin:
  assumes "z \<in> set (detectOBs_fl rnd candles)"
  shows "\<exists>c \<in> set candles. top_z z = high c \<and> bottom z = low c"
proof -
  from assms obtain i where i: "1 \<le> i" "i < length candles"
    "z \<in> set (obStep_fl rnd candles i [])"
    by (auto simp: detectOBs_fl_def fold_obStep_fl)
  then have "top_z z = high (candles ! (i - 1)) \<and> bottom z = low (candles ! (i - 1))"
    by (auto simp: obStep_fl_def Let_def split: if_splits)
  moreover from i have "candles ! (i - 1) \<in> set candles" by simp
  ultimately show ?thesis by blast
qed

lemma analyze_fl_Nil:
  "analyzePriceData_fl rnd [] config = analyzePriceData [] config"
  by (simp add: analyzePriceData_fl_def analyzePriceData_def detectFVGs_fl_def detectOBs_fl_def
      detect_Nil lastOf_def bullSweepOf_def bearSweepOf_def bosLogic_def countTrue_def Let_def)

lemma analyze_fl_plan_fields:
  fixes candles :: "Candle list" and config :: Config and rnd :: "real \<Rightarrow> real"
  defines "lc \<equiv> last candles"
  defines "buyRef \<equiv>
    (case find (\<lambda>z. type_z z = Bullish \<and> low lc \<le> top_z z \<and> close lc \<ge> bottom z)
            (detectOBs_fl rnd candles) of
       Some b \<Rightarrow> bottom b | None \<Rightarrow> low lc)"
  defines "sellRef \<equiv>
    (case find (\<lambda>z. type_z z = Bearish \<and> high lc \<ge> bottom z \<and> close lc \<le> top_z z)
            (detectOBs_fl rnd candles) of
       Some b \<Rightarrow> top_z b | None \<Rightarrow> high lc)"
  defines "buyStop \<equiv> rnd (buyRef * rnd (1 - rnd (slBuffer config / 100)))"
  defines "sellStop \<equiv> rnd (sellRef * rnd (1 + rnd (slBuffer config / 100)))"
  defines "buyTarget \<equiv> rnd (close lc + rnd (\<bar>rnd (close lc - buyStop)\<bar> * rrRatio config))"
  defines "sellTarget \<equiv> rnd (close lc - rnd (\<bar>rnd (sellStop - close lc)\<bar> * rrRatio config))"
  assumes "candles \<noteq> []" "analyzePriceData_fl rnd candles config = Inr r"
  shows "(signal r = BUY \<longrightarrow>
           entryPrice r = Some (close lc) \<and> slPrice r = Some buyStop \<and>
           tpPrice r = Some buyTarget \<and>
           pnlEstimate r =
             Some (js_times_fl rnd (js_div_fl rnd (rnd (buyTarget - close lc)) (close lc)) 100)) \<and>
         (signal r = SELL \<longrightarrow>
           entryPrice r = Some (close lc) \<and> slPrice r = Some sellStop \<and>
           tpPrice r = Some sellTarget \<and>
           pnlEstimate r =
             Some (js_times_fl rnd (js_div_fl rnd (rnd (close lc - sellTarget)) (close lc)) 100))"
  using assms(8,9) unfolding assms(1-7)
  by (auto simp: analyzePriceData_fl_def lastOf_def bullSweepOf_Some bearSweepOf_Some
      find_js_bull_Some find_js_bear_Some some_js_bull_Some some_js_bear_Some Let_def
      split: if_splits)

lemma find_SomeD: "find P xs = Some x \<Longrightarrow> P x \<and> x \<in> set xs"
  by (induction xs) (auto split: if_splits)

lemma rounding_mono: "rounding rnd \<Longrightarrow> x \<le> y \<Longrightarrow> rnd x \<le> rnd y"
  by (simp add: rounding_def)

lemma rounding_nonneg: "rounding rnd \<Longrightarrow> 0 \<le> x \<Longrightarrow> 0 \<le> rnd x"
  using rounding_mono [of rnd 0 x] by (simp add: rounding_def)

lemma js_pnl_nonneg:
  assumes "rounding rnd" "0 \<le> d" "0 < e"
  shows "js_nonneg (js_times_fl rnd (js_div_fl rnd (rnd d) e) 100)"
proof -
  from assms have "0 \<le> rnd d" by (simp add: rounding_nonneg)
  with assms(3) have "0 \<le> rnd d / e" by simp
  with assms(1) have q: "0 \<le> rnd (rnd d / e)" by (rule rounding_nonneg)
  then have "0 \<le> rnd (rnd d / e) * 100" by simp
  with assms(1) have "0 \<le> rnd (rnd (rnd d / e) * 100)" by (rule rounding_nonneg)
  with assms(3) show ?thesis by (simp add: js_div_fl_def)
qed

lemma buy_fl_arith:
  fixes b e buf rr :: real
  assumes r: "rounding rnd" and b: "0 < b" "b \<le> e" "rnd b = b" "rnd e = e"
    and c: "0 \<le> buf" "0 < rr"
  defines "s \<equiv> rnd (b * rnd (1 - rnd (buf / 100)))"
  defines "t \<equiv> rnd (e + rnd (\<bar>rnd (e - s)\<bar> * rr))"
  shows "s \<le> e \<and> e \<le> t \<and> js_nonneg (js_times_fl rnd (js_div_fl rnd (rnd (t - e)) e) 100)"
proof -
  from c have "0 \<le> buf / 100" by simp
  with r have "0 \<le> rnd (buf / 100)" by (rule rounding_nonneg)
  then have "1 - rnd (buf / 100) \<le> 1" by simp
  from rounding_mono [OF r this] r have m: "rnd (1 - rnd (buf / 100)) \<le> 1"
    by (simp add: rounding_def)
  with b(1) have "b * rnd (1 - rnd (buf / 100)) \<le> b * 1"
    by (intro mult_left_mono) simp_all
  then have "b * rnd (1 - rnd (buf / 100)) \<le> b" by simp
  from rounding_mono [OF r this] b(3) have "s \<le> b" by (simp add: s_def)
  with b(2) have se: "s \<le> e" by simp
  from c(2) have "0 \<le> \<bar>rnd (e - s)\<bar> * rr" by simp
  with r have "0 \<le> rnd (\<bar>rnd (e - s)\<bar> * rr)" by (rule rounding_nonneg)
  then have "e \<le> e + rnd (\<bar>rnd (e - s)\<bar> * rr)" by simp
  from rounding_mono [OF r this] b(4) have et: "e \<le> t" by (simp add: t_def)
  from b have e0: "0 < e" by simp
  from et have "0 \<le> t - e" by simp
  from js_pnl_nonneg [OF r this e0] se et show ?thesis by simp
qed

lemma sell_fl_arith:
  fixes b e buf rr :: real
  assumes r: "rounding rnd" and b: "0 < e" "e \<le> b" "rnd b = b" "rnd e = e"
    and c: "0 \<le> buf" "0 < rr"
  defines "s \<equiv> rnd (b * rnd (1 + rnd (buf / 100)))"
  defines "t \<equiv> rnd (e - rnd (\<bar>rnd (s - e)\<bar> * rr))"
  shows "t \<le> e \<and> e \<le> s \<and> js_nonneg (js_times_fl rnd (js_div_fl rnd (rnd (e - t)) e) 100)"
proof -
  from c have "0 \<le> buf / 100" by simp
  with r have "0 \<le> rnd (buf / 100)" by (rule rounding_nonneg)
  then have "1 \<le> 1 + rnd (buf / 100)" by simp
  from rounding_mono [OF r this] r have m: "1 \<le> rnd (1 + rnd (buf / 100))"
    by (simp add: rounding_def)
  from b have b0: "0 < b" by simp
  with m have "b * 1 \<le> b * rnd (1 + rnd (buf / 100))"
    by (intro mult_left_mono) simp_all
  then have "b \<le> b * rnd (1 + rnd (buf / 100))" by simp
  from rounding_mono [OF r this] b(3) have "b \<le> s" by (simp add: s_def)
  with b(2) have es: "e \<le> s" by simp
  from c(2) have "0 \<le> \<bar>rnd (s - e)\<bar> * rr" by simp
  with r have "0 \<le> rnd (\<bar>rnd (s - e)\<bar> * rr)" by (rule rounding_nonneg)
  then have "e - rnd (\<bar>rnd (s - e)\<bar> * rr) \<le> e" by simp
  from rounding_mono [OF r this] b(4) have te: "t \<le> e" by (simp add: t_def)
  then have "0 \<le> e - t" by simp
  from js_pnl_nonneg [OF r this b(1)] es te show ?thesis by simp
qed

text \<open>
  Claim C2, as amended. Let every bar have \<open>0 < low \<le> close \<le> high\<close>, and let the
  stop-loss buffer be at least 0 and the risk-reward multiple be positive. Then a BUY
  result of the extended engine has stop \<open>\<le>\<close> entry \<open>\<le>\<close> target, a SELL result has
  target \<open>\<le>\<close> entry \<open>\<le>\<close> stop, and the estimated return is at least 0 in both cases. This
  holds of the engine in rounded arithmetic, for every rounding, when the prices of the
  bars are doubles. Equality occurs: at a buffer of 0, and at a positive buffer or
  multiple that rounding absorbs.
\<close>

theorem trade_plan_signs:
  assumes rnd: "rounding rnd"
    and bars: "\<forall>c \<in> set candles. 0 < low c \<and> low c \<le> close c \<and> close c \<le> high c"
    and doubles: "\<forall>c \<in> set candles.
                    rnd (low c) = low c \<and> rnd (close c) = close c \<and> rnd (high c) = high c"
    and buf: "0 \<le> slBuffer config" and rr: "0 < rrRatio config"
    and res: "analyzePriceData_fl rnd candles config = Inr r"
  shows "(signal r = BUY \<longrightarrow>
            (\<exists>e s t p. entryPrice r = Some e \<and> slPrice r = Some s \<and> tpPrice r = Some t \<and>
               pnlEstimate r = Some p \<and> s \<le> e \<and> e \<le> t \<and> js_nonneg p)) \<and>
         (signal r = SELL \<longrightarrow>
            (\<exists>e s t p. entryPrice r = Some e \<and> slPrice r = Some s \<and> tpPrice r = Some t \<and>
               pnlEstimate r = Some p \<and> t \<le> e \<and> e \<le> s \<and> js_nonneg p))"
proof (cases "candles = []")
  case True
  with res show ?thesis
    by (auto simp: analyze_fl_Nil analyze_Nil split: if_splits)
next
  case False
  define lc where "lc = last candles"
  from False have "lc \<in> set candles" by (simp add: lc_def)
  with bars doubles have lc: "0 < low lc" "low lc \<le> close lc" "close lc \<le> high lc"
    "rnd (low lc) = low lc" "rnd (close lc) = close lc" "rnd (high lc) = high lc"
    by blast+
  have ob: "0 < bottom z \<and> rnd (bottom z) = bottom z \<and> rnd (top_z z) = top_z z"
    if "z \<in> set (detectOBs_fl rnd candles)" for z
  proof -
    from ob_fl_origin [OF that] obtain c where "c \<in> set candles" "top_z z = high c"
      "bottom z = low c"
      by blast
    with bars doubles show ?thesis by fastforce
  qed
  define buyRef where "buyRef =
    (case find (\<lambda>z. type_z z = Bullish \<and> low lc \<le> top_z z \<and> close lc \<ge> bottom z)
            (detectOBs_fl rnd candles) of
       Some b \<Rightarrow> bottom b | None \<Rightarrow> low lc)"
  define sellRef where "sellRef =
    (case find (\<lambda>z. type_z z = Bearish \<and> high lc \<ge> bottom z \<and> close lc \<le> top_z z)
            (detectOBs_fl rnd candles) of
       Some b \<Rightarrow> top_z b | None \<Rightarrow> high lc)"
  have buyRef: "0 < buyRef" "buyRef \<le> close lc" "rnd buyRef = buyRef"
    using lc ob unfolding buyRef_def by (auto split: option.splits dest!: find_SomeD)
  have sellRef: "close lc \<le> sellRef" "rnd sellRef = sellRef"
    using lc ob unfolding sellRef_def by (auto split: option.splits dest!: find_SomeD)
  have e: "0 < close lc" using lc by simp
  note plan = analyze_fl_plan_fields [OF False res, folded lc_def, folded buyRef_def sellRef_def]
  show ?thesis
  proof (intro conjI impI)
    assume "signal r = BUY"
    with plan buy_fl_arith [OF rnd buyRef(1,2,3) lc(5) buf rr]
    show "\<exists>e s t p. entryPrice r = Some e \<and> slPrice r = Some s \<and> tpPrice r = Some t \<and>
               pnlEstimate r = Some p \<and> s \<le> e \<and> e \<le> t \<and> js_nonneg p"
      by blast
  next
    assume "signal r = SELL"
    with plan sell_fl_arith [OF rnd e sellRef lc(5) buf rr]
    show "\<exists>e s t p. entryPrice r = Some e \<and> slPrice r = Some s \<and> tpPrice r = Some t \<and>
               pnlEstimate r = Some p \<and> t \<le> e \<and> e \<le> s \<and> js_nonneg p"
      by blast
  qed
qed

text \<open>
  A BUY on the widening bars with a buffer of 0, where stop, entry and target coincide,
  and a SELL on the falling bars with a buffer of 50 percent (entry 8, stop 21,
  target \<open>-18\<close>). Every intermediate value of the two runs is a small integer or a
  multiple of one half, so no rounding changes it.
\<close>

theorem trade_plan_signs_witness:
  "rounding (\<lambda>x. x) \<and>
   list_all (\<lambda>c. 0 < low c \<and> low c \<le> close c \<and> close c \<le> high c) (widening 5 5) \<and>
   0 \<le> slBuffer (config_of 1 1 2 0) \<and> 0 < rrRatio (config_of 1 1 2 0) \<and>
   (\<exists>r. analyzePriceData_fl (\<lambda>x. x) (widening 5 5) (config_of 1 1 2 0) = Inr r \<and>
      signal r = BUY \<and>
      (\<exists>e s t p. entryPrice r = Some e \<and> slPrice r = Some s \<and> tpPrice r = Some t \<and>
         pnlEstimate r = Some p \<and> s \<le> e \<and> e \<le> t \<and> js_nonneg p)) \<and>
   list_all (\<lambda>c. 0 < low c \<and> low c \<le> close c \<and> close c \<le> high c) falling \<and>
   0 \<le> slBuffer (config_of 1 1 2 50) \<and> 0 < rrRatio (config_of 1 1 2 50) \<and>
   (\<exists>r. analyzePriceData_fl (\<lambda>x. x) falling (config_of 1 1 2 50) = Inr r \<and>
      signal r = SELL \<and>
      (\<exists>e s t p. entryPrice r = Some e \<and> slPrice r = Some s \<and> tpPrice r = Some t \<and>
         pnlEstimate r = Some p \<and> t \<le> e \<and> e \<le> s \<and> js_nonneg p))"
proof -
  have rn: "rounding (\<lambda>x. x)" by (simp add: rounding_def)
  have w: "list_all (\<lambda>c. 0 < low c \<and> low c \<le> close c \<and> close c \<le> high c) (widening 5 5)"
    by (simp add: widening_def candle_def)
  have f: "list_all (\<lambda>c. 0 < low c \<and> low c \<le> close c \<and> close c \<le> high c) falling"
    by (simp add: falling_def candle_def)
  have dw: "\<forall>c \<in> set (widening 5 5). low c = low c \<and> close c = close c \<and> high c = high c"
    and df: "\<forall>c \<in> set falling. low c = low c \<and> close c = close c \<and> high c = high c"
    by simp_all
  have c0: "0 \<le> slBuffer (config_of 1 1 2 0)" "0 < rrRatio (config_of 1 1 2 0)"
    and c50: "0 \<le> slBuffer (config_of 1 1 2 50)" "0 < rrRatio (config_of 1 1 2 50)"
    by (simp_all add: config_of_def)
  have "case analyzePriceData_fl (\<lambda>x. x) (widening 5 5) (config_of 1 1 2 0) of
          Inl e \<Rightarrow> False | Inr r \<Rightarrow> signal r = BUY"
    by code_simp
  then obtain r1 where r1:
    "analyzePriceData_fl (\<lambda>x. x) (widening 5 5) (config_of 1 1 2 0) = Inr r1" "signal r1 = BUY"
    by (auto split: sum.splits)
  have "case analyzePriceData_fl (\<lambda>x. x) falling (config_of 1 1 2 50) of
          Inl e \<Rightarrow> False | Inr r \<Rightarrow> signal r = SELL"
    by code_simp
  then obtain r2 where r2:
    "analyzePriceData_fl (\<lambda>x. x) falling (config_of 1 1 2 50) = Inr r2" "signal r2 = SELL"
    by (auto split: sum.splits)
  from trade_plan_signs [OF rn w [unfolded list_all_iff] dw c0 r1(1)] r1
  have a: "\<exists>r. analyzePriceData_fl (\<lambda>x. x) (widening 5 5) (config_of 1 1 2 0) = Inr r \<and>
      signal r = BUY \<and>
      (\<exists>e s t p. entryPrice r = Some e \<and> slPrice r = Some s \<and> tpPrice r = Some t \<and>
         pnlEstimate r = Some p \<and> s \<le> e \<and> e \<le> t \<and> js_nonneg p)"
    by blast
  from trade_plan_signs [OF rn f [unfolded list_all_iff] df c50 r2(1)] r2
  have b: "\<exists>r. analyzePriceData_fl (\<lambda>x. x) falling (config_of 1 1 2 50) = Inr r \<and>
      signal r = SELL \<and>
      (\<exists>e s t p. entryPrice r = Some e \<and> slPrice r = Some s \<and> tpPrice r = Some t \<and>
         pnlEstimate r = Some p \<and> t \<le> e \<and> e \<le> s \<and> js_nonneg p)"
    by blast
  from rn w f c0 c50 a b show ?thesis by blast
qed

text \<open>
  The claim as the specification states it has strict inequalities, over any bar
  sequence. Three results of the engine, each a BUY at minimum confluence 1 with
  risk-reward multiple 2:
  \<^item> buffer 0, the last bar closing at its low 5: entry, stop and target are all 5 and the
    estimated return is 0;
  \<^item> buffer 50, the last bar closing at 2, below its own low 5: the stop 2.5 is above the
    entry 2;
  \<^item> buffer 50, the last bar with low and close \<open>-5\<close>: the stop \<open>-2.5\<close> is above the
    entry \<open>-5\<close> and the estimated return is \<open>-100\<close>.
\<close>

theorem trade_plan_counterexample:
  "plan (analyzePriceData (widening 5 5) (config_of 1 1 2 0)) =
     Inr (BUY, Some 5, Some 5, Some 5, Some (Num 0)) \<and>
   plan (analyzePriceData (widening 5 2) (config_of 1 1 2 50)) =
     Inr (BUY, Some 2, Some (5 / 2), Some 3, Some (Num 50)) \<and>
   plan (analyzePriceData (widening (- 5) (- 5)) (config_of 1 1 2 50)) =
     Inr (BUY, Some (- 5), Some (- (5 / 2)), Some 0, Some (Num (- 100)))"
  by code_simp

lemma flat_bodies_no_zones:
  assumes "\<forall>c \<in> set candles. close c = open_c c"
  shows "detectFVGs_fl rnd candles = []" "detectOBs_fl rnd candles = []"
proof -
  have f: "fvgStep_fl rnd candles i acc = acc" if "2 \<le> i" "i < length candles" for i acc
  proof -
    from that have "candles ! (i - 1) \<in> set candles" by simp
    with assms have "close (candles ! (i - 1)) = open_c (candles ! (i - 1))" by blast
    then show ?thesis
      by (simp add: fvgStep_fl_def bullishFVG_fl_def bearishFVG_fl_def)
  qed
  have o: "obStep_fl rnd candles i acc = acc" if "1 \<le> i" "i < length candles" for i acc
  proof -
    from that have "candles ! i \<in> set candles" by simp
    with assms have "close (candles ! i) = open_c (candles ! i)" by blast
    then show ?thesis
      by (simp add: obStep_fl_def bullishOB_fl_def bearishOB_fl_def)
  qed
  have "fold (fvgStep_fl rnd candles) xs acc = acc" if "set xs \<subseteq> {2 ..< length candles}" for xs acc
    using that by (induction xs arbitrary: acc) (simp_all add: f)
  then show "detectFVGs_fl rnd candles = []"
    by (simp add: detectFVGs_fl_def)
  have "fold (obStep_fl rnd candles) xs acc = acc" if "set xs \<subseteq> {1 ..< length candles}" for xs acc
    using that by (induction xs arbitrary: acc) (simp_all add: o)
  then show "detectOBs_fl rnd candles = []"
    by (simp add: detectOBs_fl_def)
qed

text \<open>
  The three results are those of the engine in rounded arithmetic as well, under every
  rounding that leaves the eleven values below as they are; all of them are doubles.
\<close>

lemma counterexample_plans_any_rounding:
  assumes "rnd 0 = 0" "rnd 1 = 1" "rnd 3 = 3" "rnd 5 = 5" "rnd 50 = 50"
    "rnd (1 / 2) = 1 / 2" "rnd (5 / 2) = 5 / 2"
    "rnd (- 1) = - 1" "rnd (- 100) = - 100" "rnd (- (1 / 2)) = - (1 / 2)"
    "rnd (- (5 / 2)) = - (5 / 2)"
  shows "plan (analyzePriceData_fl rnd (widening 5 5) (config_of 1 1 2 0)) =
           Inr (BUY, Some 5, Some 5, Some 5, Some (Num 0))"
    and "plan (analyzePriceData_fl rnd (widening 5 2) (config_of 1 1 2 50)) =
           Inr (BUY, Some 2, Some (5 / 2), Some 3, Some (Num 50))"
    and "plan (analyzePriceData_fl rnd (widening (- 5) (- 5)) (config_of 1 1 2 50)) =
           Inr (BUY, Some (- 5), Some (- (5 / 2)), Some 0, Some (Num (- 100)))"
proof -
  have flat: "\<forall>c \<in> set (widening l c). close c = open_c c" for l c
    by (simp add: widening_def candle_def)
  note defs = analyzePriceData_fl_def bullSweepOf_def bearSweepOf_def bosLogic_def
    countTrue_def candle_def js_div_fl_def plan_def Let_def
  {
    define cs where "cs = widening 5 5"
    define cfg where "cfg = config_of 1 1 2 0"
    have z: "detectFVGs_fl rnd cs = []" "detectOBs_fl rnd cs = []"
      unfolding cs_def by (rule flat_bodies_no_zones [OF flat])+
    have hp: "findPivots cs cfg High =
                [\<lparr>val = 13, idx = 1, time_p = 1\<rparr>, \<lparr>val = 14, idx = 3, time_p = 3\<rparr>]"
      unfolding cs_def cfg_def by code_simp
    have lp: "findPivots cs cfg Low =
                [\<lparr>val = 3, idx = 1, time_p = 1\<rparr>, \<lparr>val = 2, idx = 3, time_p = 3\<rparr>]"
      unfolding cs_def cfg_def by code_simp
    have lastC: "lastOf cs = Some (candle 4 5 11 5 5)"
      by (simp add: cs_def lastOf_def widening_def)
    have c: "minConfluence cfg = 1" "slBuffer cfg = 0" "rrRatio cfg = 2"
      by (simp_all add: cfg_def config_of_def)
    have "plan (analyzePriceData_fl rnd cs cfg) = Inr (BUY, Some 5, Some 5, Some 5, Some (Num 0))"
      by (simp add: defs z hp lp lastC c assms)
    then have "plan (analyzePriceData_fl rnd (widening 5 5) (config_of 1 1 2 0)) =
           Inr (BUY, Some 5, Some 5, Some 5, Some (Num 0))"
      by (simp only: cs_def cfg_def)
  }
  then show "plan (analyzePriceData_fl rnd (widening 5 5) (config_of 1 1 2 0)) =
           Inr (BUY, Some 5, Some 5, Some 5, Some (Num 0))" .
  {
    define cs where "cs = widening 5 2"
    define cfg where "cfg = config_of 1 1 2 50"
    have z: "detectFVGs_fl rnd cs = []" "detectOBs_fl rnd cs = []"
      unfolding cs_def by (rule flat_bodies_no_zones [OF flat])+
    have hp: "findPivots cs cfg High =
                [\<lparr>val = 13, idx = 1, time_p = 1\<rparr>, \<lparr>val = 14, idx = 3, time_p = 3\<rparr>]"
      unfolding cs_def cfg_def by code_simp
    have lp: "findPivots cs cfg Low =
                [\<lparr>val = 3, idx = 1, time_p = 1\<rparr>, \<lparr>val = 2, idx = 3, time_p = 3\<rparr>]"
      unfolding cs_def cfg_def by code_simp
    have lastC: "lastOf cs = Some (candle 4 2 11 5 2)"
      by (simp add: cs_def lastOf_def widening_def)
    have c: "minConfluence cfg = 1" "slBuffer cfg = 50" "rrRatio cfg = 2"
      by (simp_all add: cfg_def config_of_def)
    have "plan (analyzePriceData_fl rnd cs cfg) =
            Inr (BUY, Some 2, Some (5 / 2), Some 3, Some (Num 50))"
      by (simp add: defs z hp lp lastC c assms)
    then have "plan (analyzePriceData_fl rnd (widening 5 2) (config_of 1 1 2 50)) =
           Inr (BUY, Some 2, Some (5 / 2), Some 3, Some (Num 50))"
      by (simp only: cs_def cfg_def)
  }
  then show "plan (analyzePriceData_fl rnd (widening 5 2) (config_of 1 1 2 50)) =
           Inr (BUY, Some 2, Some (5 / 2), Some 3, Some (Num 50))" .
  {
    define cs where "cs = widening (- 5) (- 5)"
    define cfg where "cfg = config_of 1 1 2 50"
    have z: "detectFVGs_fl rnd cs = []" "detectOBs_fl rnd cs = []"
      unfolding cs_def by (rule flat_bodies_no_zones [OF flat])+
    have hp: "findPivots cs cfg High =
                [\<lparr>val = 13, idx = 1, time_p = 1\<rparr>, \<lparr>val = 14, idx = 3, time_p = 3\<rparr>]"
      unfolding cs_def cfg_def by code_simp
    have lp: "findPivots cs cfg Low = [\<lparr>val = 3, idx = 1, time_p = 1\<rparr>]"
      unfolding cs_def cfg_def by code_simp
    have lastC: "lastOf cs = Some (candle 4 (- 5) 11 (- 5) (- 5))"
      by (simp add: cs_def lastOf_def widening_def)
    have c: "minConfluence cfg = 1" "slBuffer cfg = 50" "rrRatio cfg = 2"
      by (simp_all add: cfg_def config_of_def)
    have "plan (analyzePriceData_fl rnd cs cfg) =
            Inr (BUY, Some (- 5), Some (- (5 / 2)), Some 0, Some (Num (- 100)))"
      by (simp add: defs z hp lp lastC c assms)
    then have "plan (analyzePriceData_fl rnd (widening (- 5) (- 5)) (config_of 1 1 2 50)) =
           Inr (BUY, Some (- 5), Some (- (5 / 2)), Some 0, Some (Num (- 100)))"
      by (simp only: cs_def cfg_def)
  }
  then show "plan (analyzePriceData_fl rnd (widening (- 5) (- 5)) (config_of 1 1 2 50)) =
           Inr (BUY, Some (- 5), Some (- (5 / 2)), Some 0, Some (Num (- 100)))" .
qed

section \<open>The two engines compared\<close>

lemma countTrue_sum:
  "countTrue c =
     (if ob c then 1 else 0) + (if fvg c then 1 else 0) + (if bos c then 1 else 0) +
     (if sweep c then 1 else 0)"
  by (simp add: countTrue_def)

text \<open>
  Claim C8. For every bar sequence and every configuration, the empty sequence with a
  minimum confluence of 0 apart (there the extended engine throws and the base engine
  answers BUY), both engines return, with the same fair value gaps, the same order blocks
  and the same structure events; each score of the base engine is the score of the
  extended engine minus 1 if the sweep flag of that direction is set and minus 0
  otherwise; and when both sweep flags are false the two signals are equal.
\<close>

theorem variants_agree:
  assumes "candles \<noteq> [] \<or> 1 \<le> minConfluence config"
  shows "\<exists>r b. analyzePriceData candles config = Inr r \<and>
           analyzePriceData_base candles config = Inr b \<and>
           fvgs_b b = fvgs r \<and> orderBlocks_b b = orderBlocks r \<and>
           structure_b b = structure_r r \<and>
           bullScore_b b = bullScore r - (if sweep (bullish (confluences r)) then 1 else 0) \<and>
           bearScore_b b = bearScore r - (if sweep (bearish (confluences r)) then 1 else 0) \<and>
           bullScore r = bullScore_b b + (if sweep (bullish (confluences r)) then 1 else 0) \<and>
           bearScore r = bearScore_b b + (if sweep (bearish (confluences r)) then 1 else 0) \<and>
           (\<not> sweep (bullish (confluences r)) \<and> \<not> sweep (bearish (confluences r))
              \<longrightarrow> signal_b b = signal r)"
proof (cases "candles = []")
  case True
  with assms show ?thesis
    by (simp add: analyze_Nil base_Nil)
next
  case False
  from analyze_nonempty [OF False, of config] obtain r where
    r: "analyzePriceData candles config = Inr r"
      "fvgs r = detectFVGs candles" "orderBlocks r = detectOBs candles"
      "structure_r r = bosLogic (findPivots candles config High) (findPivots candles config Low)"
      "bullScore r = countTrue (bullish (confluences r))"
      "bearScore r = countTrue (bearish (confluences r))"
      "signal r = (if bullScore r \<ge> minConfluence config then BUY
                 else if bearScore r \<ge> minConfluence config then SELL else NEUTRAL)"
    and c: "ob (bullish (confluences r)) =
         list_ex (\<lambda>z. type_z z = Bullish \<and> low (last candles) \<le> top_z z \<and>
                              close (last candles) \<ge> bottom z) (detectOBs candles)"
       "fvg (bullish (confluences r)) =
         list_ex (\<lambda>z. type_z z = Bullish \<and> low (last candles) \<le> top_z z \<and>
                              close (last candles) \<ge> bottom z) (detectFVGs candles)"
       "bos (bullish (confluences r)) =
         list_ex (\<lambda>s. direction s = Bullish)
                   (bosLogic (findPivots candles config High) (findPivots candles config Low))"
       "ob (bearish (confluences r)) =
         list_ex (\<lambda>z. type_z z = Bearish \<and> high (last candles) \<ge> bottom z \<and>
                              close (last candles) \<le> top_z z) (detectOBs candles)"
       "fvg (bearish (confluences r)) =
         list_ex (\<lambda>z. type_z z = Bearish \<and> high (last candles) \<ge> bottom z \<and>
                              close (last candles) \<le> top_z z) (detectFVGs candles)"
       "bos (bearish (confluences r)) =
         list_ex (\<lambda>s. direction s = Bearish)
                   (bosLogic (findPivots candles config High) (findPivots candles config Low))"
    by force
  from base_nonempty [OF False, of config] obtain b where
    b: "analyzePriceData_base candles config = Inr b"
      "fvgs_b b = detectFVGs candles" "orderBlocks_b b = detectOBs candles"
      "structure_b b = bosLogic (findPivots candles config High) (findPivots candles config Low)"
      "signal_b b = (if bullScore_b b \<ge> minConfluence config then BUY
                 else if bearScore_b b \<ge> minConfluence config then SELL else NEUTRAL)"
    and sb: "bullScore_b b =
       (if ob (bullish (confluences r)) then 1 else 0) +
       (if fvg (bullish (confluences r)) then 1 else 0) +
       (if bos (bullish (confluences r)) then 1 else 0)"
      "bearScore_b b =
       (if ob (bearish (confluences r)) then 1 else 0) +
       (if fvg (bearish (confluences r)) then 1 else 0) +
       (if bos (bearish (confluences r)) then 1 else 0)"
    unfolding c by blast
  have s1: "bullScore r = bullScore_b b + (if sweep (bullish (confluences r)) then 1 else 0)"
    unfolding r(5) sb countTrue_sum by simp
  have s2: "bearScore r = bearScore_b b + (if sweep (bearish (confluences r)) then 1 else 0)"
    unfolding r(6) sb countTrue_sum by simp
  have sig: "signal_b b = signal r"
    if "\<not> sweep (bullish (confluences r)) \<and> \<not> sweep (bearish (confluences r))"
    using that s1 s2 r(7) b(5) by simp
  from r(1-4) b(1-4) s1 s2 sig show ?thesis
    by (intro exI [of _ r] exI [of _ b]) simp
qed

text \<open>
  On the widening bars with a last low of 1 the last bar sweeps the low pivot at 3: the
  bull score is 2 in the extended engine and 1 in the base engine.
\<close>

theorem variants_agree_witness:
  "1 \<le> minConfluence (config_of 1 2 2 0.1) \<and>
   (\<exists>r b. analyzePriceData (widening 1 8) (config_of 1 2 2 0.1) = Inr r \<and>
      analyzePriceData_base (widening 1 8) (config_of 1 2 2 0.1) = Inr b \<and>
      sweep (bullish (confluences r)) \<and> bullScore r = 2 \<and> bullScore_b b = 1 \<and>
      \<not> sweep (bearish (confluences r)) \<and> bearScore r = 0 \<and> bearScore_b b = 0 \<and>
      fvgs_b b = fvgs r \<and> orderBlocks_b b = orderBlocks r \<and> structure_b b = structure_r r)"
proof -
  have h: "1 \<le> minConfluence (config_of 1 2 2 0.1)"
    by (simp add: config_of_def)
  have e: "case analyzePriceData (widening 1 8) (config_of 1 2 2 0.1) of
          Inl e \<Rightarrow> False
        | Inr r \<Rightarrow> sweep (bullish (confluences r)) \<and> bullScore r = 2 \<and>
                   \<not> sweep (bearish (confluences r)) \<and> bearScore r = 0"
    by code_simp
  from h have d: "widening 1 8 \<noteq> [] \<or> 1 \<le> minConfluence (config_of 1 2 2 0.1)" ..
  from variants_agree [OF d] obtain r b where
    rb: "analyzePriceData (widening 1 8) (config_of 1 2 2 0.1) = Inr r"
      "analyzePriceData_base (widening 1 8) (config_of 1 2 2 0.1) = Inr b"
      "fvgs_b b = fvgs r" "orderBlocks_b b = orderBlocks r" "structure_b b = structure_r r"
      "bullScore_b b = bullScore r - (if sweep (bullish (confluences r)) then 1 else 0)"
      "bearScore_b b = bearScore r - (if sweep (bearish (confluences r)) then 1 else 0)"
    by blast
  from e rb(1) have v: "sweep (bullish (confluences r))" "bullScore r = 2"
    "\<not> sweep (bearish (confluences r))" "bearScore r = 0"
    by simp_all
  from rb(6,7) v have "bullScore_b b = 1" "bearScore_b b = 0" by simp_all
  with h rb v show ?thesis by blast
qed

end
